theory Spec2Isabelle
  imports Complex_Main "HOL-Library.AList" "HOL-Library.Word"
begin

unbundle bit_operations_syntax

section \<open>Values shared by the components\<close>

text \<open>
  A value thrown by JavaScript code. \<open>Error m\<close> is an instance of \<open>Error\<close> whose
  \<open>message\<close> is \<open>m\<close>; \<open>Thrown s\<close> is any other thrown value, \<open>s\<close> being what
  \<open>String(value)\<close> gives for it. A function that can throw returns \<open>exn + 'a\<close>,
  \<open>Inl\<close> for the throw (for an async function: the rejection of its promise).
\<close>

datatype exn = Error string | Thrown string

text \<open>
  The TypeScript type \<open>any\<close>, as far as it is data: the values JSON can carry, and
  \<open>undefined\<close> for an absent optional property. Numbers are kept as integers.
\<close>

datatype any =
    JUndefined
  | JNull
  | JBool bool
  | JNum int
  | JStr string
  | JArr "any list"
  | JObj "(string \<times> any) list"

text \<open>
  The parts of the JavaScript runtime the code calls and this development does not
  define: \<open>JSON.parse\<close> (which throws on malformed text), \<open>JSON.stringify\<close> on
  data, and the difference of the two \<open>Date.now()\<close> readings taken around the call of
  a tool, given as a function of the call.
\<close>

record runtime =
  JSON_parse :: "string \<Rightarrow> exn + any"
  JSON_stringify :: "any \<Rightarrow> string"
  elapsed :: "string \<Rightarrow> any \<Rightarrow> int"

text \<open>
  What the tools act on outside the process (files, child processes, remote services):
  named resources, each holding data. A tool reads it and leaves it changed.
\<close>

type_synonym world = "(string \<times> any) list"

section \<open>The tool registry (src/core/PluginManager.ts)\<close>

text \<open>src/types/index.ts: \<open>ToolResult\<close>, \<open>Tool\<close>, \<open>Plugin\<close>.\<close>

record ToolResult =
  success :: bool
  data :: any
  error :: "string option"
  metadata :: any

text \<open>
  \<open>execute: (params: any) => Promise<ToolResult>\<close>. The executor is run on its
  parameters in the world as it is and leaves the world as it makes it: \<open>Inr\<close> is the
  value its promise resolves to, \<open>Inl\<close> what it throws or rejects with.
\<close>

record Tool =
  tool_name :: string
  tool_description :: string
  tool_parameters :: any
  execute :: "any \<Rightarrow> world \<Rightarrow> (exn + ToolResult) \<times> world"

text \<open>
  \<open>initialize\<close> and \<open>cleanup\<close> are optional hooks, \<open>None\<close> when absent.
  Otherwise the value says what calling the hook does: \<open>Some (Inl e)\<close> when the call
  itself throws \<open>e\<close>, before any promise exists; \<open>Some (Inr None)\<close> when it
  returns a promise that resolves; \<open>Some (Inr (Some e))\<close> when it returns a promise
  that rejects with \<open>e\<close>.
\<close>

record Plugin =
  plugin_name :: string
  version :: string
  plugin_description :: string
  author :: "string option"
  enabled :: bool
  plugin_tools :: "Tool list"
  initialize :: "(exn + exn option) option"
  cleanup :: "(exn + exn option) option"

text \<open>
  A JavaScript \<open>Map\<close> keeps its entries in insertion order: \<open>set\<close> on a present key
  replaces the value in place, \<open>set\<close> on an absent key appends, \<open>delete\<close> removes
  the entry. This is an association list with \<open>AList.update\<close>, \<open>AList.delete\<close> and
  \<open>map_of\<close>.
\<close>

record PluginManager =
  plugins :: "(string \<times> Plugin) list"
  tools :: "(string \<times> Tool) list"
  pluginsDirectory :: string

definition new_PluginManager :: PluginManager where
  "new_PluginManager = \<lparr>plugins = [], tools = [], pluginsDirectory = ''./src/plugins''\<rparr>"

text \<open>
  \<open>registerPlugin\<close>: \<open>this.plugins.set(plugin.name, plugin)\<close>, then
  \<open>this.tools.set(tool.name, tool)\<close> for each tool of the plugin, in order.
\<close>

definition registerPlugin :: "Plugin \<Rightarrow> PluginManager \<Rightarrow> PluginManager" where
  "registerPlugin plugin pm =
     pm\<lparr>plugins := AList.update (plugin_name plugin) plugin (plugins pm),
        tools := fold (\<lambda>tool ts. AList.update (tool_name tool) tool ts)
                   (plugin_tools plugin) (tools pm)\<rparr>"

text \<open>
  \<open>unregisterPlugin\<close>: nothing happens for an unknown plugin name. Otherwise, if the
  plugin has a cleanup hook, \<open>plugin.cleanup().catch(...)\<close> runs first and outside any
  \<open>try\<close>: a hook whose call throws makes \<open>unregisterPlugin\<close> throw with nothing
  removed, while a rejection of the promise it returns is only logged. Then every tool
  name the plugin lists is deleted from the tool map, and the plugin is deleted from the
  plugin map.
\<close>

definition unregisterPlugin ::
    "string \<Rightarrow> PluginManager \<Rightarrow> (exn + unit) \<times> PluginManager" where
  "unregisterPlugin pluginName pm =
     (case map_of (plugins pm) pluginName of
        None \<Rightarrow> (Inr (), pm)
      | Some plugin \<Rightarrow>
          (case cleanup plugin of
             Some (Inl err) \<Rightarrow> (Inl err, pm)
           | _ \<Rightarrow>
               (Inr (),
                pm\<lparr>tools := fold (\<lambda>tool ts. AList.delete (tool_name tool) ts)
                            (plugin_tools plugin) (tools pm),
                   plugins := AList.delete pluginName (plugins pm)\<rparr>)))"


definition getPlugin :: "PluginManager \<Rightarrow> string \<Rightarrow> Plugin option" where
  "getPlugin pm n = map_of (plugins pm) n"

definition getAllPlugins :: "PluginManager \<Rightarrow> Plugin list" where
  "getAllPlugins pm = map snd (plugins pm)"

definition getTool :: "PluginManager \<Rightarrow> string \<Rightarrow> Tool option" where
  "getTool pm n = map_of (tools pm) n"

definition getAllTools :: "PluginManager \<Rightarrow> Tool list" where
  "getAllTools pm = map snd (tools pm)"

text \<open>
  What \<open>executeTool\<close> resolves to: \<open>{ ...result, executionTime }\<close>, the executor's
  result with one more property.
\<close>

record ToolOutput = ToolResult +
  executionTime :: int

text \<open>
  \<open>executeTool\<close>: an unknown name throws \<open>Error(`Tool not found: ${toolName}`)\<close>
  and nothing runs. For a known tool the executor runs; its result is returned with the
  execution time added; in the \<open>catch\<close> branch the error is logged and thrown again.
  Either way the world is as the executor left it.
\<close>

definition executeTool ::
    "runtime \<Rightarrow> PluginManager \<Rightarrow> string \<Rightarrow> any \<Rightarrow> world
       \<Rightarrow> (exn + ToolOutput) \<times> world" where
  "executeTool rt pm toolName params w =
     (case map_of (tools pm) toolName of
        None \<Rightarrow> (Inl (Error (''Tool not found: '' @ toolName)), w)
      | Some tool \<Rightarrow>
          (case execute tool params w of
             (Inr result, w') \<Rightarrow>
               (Inr (ToolResult.extend result
                       (ToolOutput.fields (elapsed rt toolName params))), w')
           | (Inl err, w') \<Rightarrow> (Inl err, w')))"

section \<open>The provider registry (src/core/AIProviderManager.ts, src/types/ai.ts)\<close>

datatype role = System | User | Assistant | ToolRole

record AIMessage =
  ai_role :: role
  ai_content :: string
  ai_toolCallId :: "string option"

record AIModelConfig =
  cfg_provider :: string
  cfg_model :: string
  cfg_apiKey :: "string option"
  cfg_baseUrl :: "string option"
  cfg_maxTokens :: "nat option"
  cfg_temperature :: "real option"

record ToolCallFunction =
  fn_name :: string
  arguments :: string

record AIToolCall =
  call_id :: string
  call_type :: string
  call_function :: ToolCallFunction

record Usage =
  promptTokens :: nat
  completionTokens :: nat
  totalTokens :: nat

record AIResponse =
  response_content :: string
  response_toolCalls :: "AIToolCall list option"
  usage :: "Usage option"

record AIStreamChunk =
  chunk_content :: string
  chunk_done :: bool

text \<open>
  What consuming an \<open>AsyncGenerator<AIStreamChunk>\<close> to its end observes: the chunks
  it yields, in order, and the value it throws if it ends by throwing.
\<close>

type_synonym chunk_stream = "AIStreamChunk list \<times> exn option"

text \<open>
  \<open>AIProviderClient\<close>: \<open>chat\<close> is required, \<open>streamChat?\<close> is optional
  (\<open>None\<close> when the client has no such property).
\<close>

record AIProviderClient =
  client_chat :: "AIMessage list \<Rightarrow> any list option \<Rightarrow> exn + AIResponse"
  client_streamChat :: "(AIMessage list \<Rightarrow> any list option \<Rightarrow> chunk_stream) option"

record AIProvider =
  provider_name :: string
  displayName :: string
  models :: "string list"
  createClient :: "AIModelConfig \<Rightarrow> exn + AIProviderClient"

record AIProviderManager =
  providers :: "(string \<times> AIProvider) list"
  currentProvider :: "AIProviderClient option"
  currentConfig :: "AIModelConfig option"

definition new_AIProviderManager :: AIProviderManager where
  "new_AIProviderManager = \<lparr>providers = [], currentProvider = None, currentConfig = None\<rparr>"

definition registerProvider :: "AIProvider \<Rightarrow> AIProviderManager \<Rightarrow> AIProviderManager" where
  "registerProvider p mgr = mgr\<lparr>providers := AList.update (provider_name p) p (providers mgr)\<rparr>"

definition unregisterProvider :: "string \<Rightarrow> AIProviderManager \<Rightarrow> AIProviderManager" where
  "unregisterProvider providerName mgr =
     mgr\<lparr>providers := AList.delete providerName (providers mgr)\<rparr>"

text \<open>
  \<open>setProvider\<close>: an unknown provider name throws. Otherwise \<open>currentConfig\<close> is
  assigned first and the client factory is called second, so a factory that throws
  leaves the new configuration with the old client.
\<close>

definition setProvider ::
    "AIModelConfig \<Rightarrow> AIProviderManager \<Rightarrow> (exn + unit) \<times> AIProviderManager" where
  "setProvider config mgr =
     (case map_of (providers mgr) (cfg_provider config) of
        None \<Rightarrow> (Inl (Error (''AI provider not found: '' @ cfg_provider config)), mgr)
      | Some p \<Rightarrow>
          (let mgr1 = mgr\<lparr>currentConfig := Some config\<rparr> in
           case createClient p config of
             Inl e \<Rightarrow> (Inl e, mgr1)
           | Inr client \<Rightarrow> (Inr (), mgr1\<lparr>currentProvider := Some client\<rparr>)))"

definition chat ::
    "AIProviderManager \<Rightarrow> AIMessage list \<Rightarrow> any list option \<Rightarrow> exn + AIResponse" where
  "chat mgr messages tls =
     (case currentProvider mgr of
        None \<Rightarrow> Inl (Error ''No AI provider configured. Call setProvider() first.'')
      | Some client \<Rightarrow> client_chat client messages tls)"

text \<open>
  \<open>streamChat\<close>: with no client the generator throws at its first step. A client with
  a \<open>streamChat\<close> of its own is delegated to (\<open>yield*\<close>). Otherwise the fallback
  awaits \<open>chat\<close> and yields \<open>{ content: response.content, done: true }\<close>, once.
\<close>

definition streamChat ::
    "AIProviderManager \<Rightarrow> AIMessage list \<Rightarrow> any list option \<Rightarrow> chunk_stream" where
  "streamChat mgr messages tls =
     (case currentProvider mgr of
        None \<Rightarrow> ([], Some (Error ''No AI provider configured. Call setProvider() first.''))
      | Some client \<Rightarrow>
          (case client_streamChat client of
             Some native \<Rightarrow> native messages tls
           | None \<Rightarrow>
               (case client_chat client messages tls of
                  Inl e \<Rightarrow> ([], Some e)
                | Inr response \<Rightarrow>
                    ([\<lparr>chunk_content = response_content response, chunk_done = True\<rparr>], None))))"

section \<open>The secret store (src/core/ApiKeyManager.ts)\<close>

subsection \<open>Bytes, hex text and string splitting\<close>

type_synonym byte = "8 word"
type_synonym bytes = "byte list"

text \<open>\<open>buffer.toString('hex')\<close>: two lower-case hex digits per byte.\<close>

definition hex_digit :: "nat \<Rightarrow> char" where
  "hex_digit n = (if n < 10 then char_of (48 + n) else char_of (87 + n))"

definition to_hex :: "bytes \<Rightarrow> string" where
  "to_hex bs = concat (map (\<lambda>b. [hex_digit (unat b div 16), hex_digit (unat b mod 16)]) bs)"

text \<open>
  \<open>Buffer.from(text, 'hex')\<close>: decodes pairs of hex digits of either case and stops at
  the first pair that is not two hex digits; a trailing single character is dropped.
\<close>

definition hex_value :: "char \<Rightarrow> nat option" where
  "hex_value ch =
     (let n = (of_char ch :: nat) in
      if 48 \<le> n \<and> n \<le> 57 then Some (n - 48)
      else if 97 \<le> n \<and> n \<le> 102 then Some (n - 87)
      else if 65 \<le> n \<and> n \<le> 70 then Some (n - 55)
      else None)"

fun from_hex :: "string \<Rightarrow> bytes" where
  "from_hex (a # b # rest) =
     (case hex_value a of
        None \<Rightarrow> []
      | Some h \<Rightarrow>
          (case hex_value b of
             None \<Rightarrow> []
           | Some l \<Rightarrow> of_nat (16 * h + l) # from_hex rest))"
| "from_hex _ = []"

text \<open>
  \<open>text.split(sep)\<close> for a one-character separator: the pieces between the
  separators, at least one piece.
\<close>

fun split_on :: "char \<Rightarrow> string \<Rightarrow> string list" where
  "split_on sep [] = [[]]"
| "split_on sep (x # xs) =
     (if x = sep then [] # split_on sep xs
      else (case split_on sep xs of
              [] \<Rightarrow> [[x]]
            | p # ps \<Rightarrow> (x # p) # ps))"

subsection \<open>AES-256-CBC as Node's \<open>Cipheriv\<close> and \<open>Decipheriv\<close> run it\<close>

text \<open>
  AES-256 under \<open>this.encryptionKey\<close>, on one 16-byte block, is a parameter: a pair of
  functions on byte lists. \<open>block_cipher\<close> says what is used of it: blocks go to blocks,
  and decrypting undoes encrypting.
\<close>

record cipher =
  enc_block :: "bytes \<Rightarrow> bytes"
  dec_block :: "bytes \<Rightarrow> bytes"

definition block_cipher :: "cipher \<Rightarrow> bool" where
  "block_cipher c \<longleftrightarrow>
     (\<forall>b. length b = 16 \<longrightarrow>
        length (enc_block c b) = 16 \<and> length (dec_block c b) = 16
        \<and> dec_block c (enc_block c b) = b)"

definition xor_bytes :: "bytes \<Rightarrow> bytes \<Rightarrow> bytes" where
  "xor_bytes a b = map2 (XOR) a b"

text \<open>The complete 16-byte blocks of a byte list, in order.\<close>

definition blocks :: "bytes \<Rightarrow> bytes list" where
  "blocks bs = map (\<lambda>i. take 16 (drop (16 * i) bs)) [0 ..< length bs div 16]"

text \<open>The bytes after the last complete block (fewer than 16).\<close>

definition remainder :: "bytes \<Rightarrow> bytes" where
  "remainder bs = drop (16 * (length bs div 16)) bs"

fun cbc_encrypt :: "cipher \<Rightarrow> bytes \<Rightarrow> bytes list \<Rightarrow> bytes list" where
  "cbc_encrypt c prev [] = []"
| "cbc_encrypt c prev (b # bs) =
     (let x = enc_block c (xor_bytes b prev) in x # cbc_encrypt c x bs)"

fun cbc_decrypt :: "cipher \<Rightarrow> bytes \<Rightarrow> bytes list \<Rightarrow> bytes list" where
  "cbc_decrypt c prev [] = []"
| "cbc_decrypt c prev (x # xs) = xor_bytes (dec_block c x) prev # cbc_decrypt c x xs"

definition pkcs7_pad :: "bytes \<Rightarrow> bytes" where
  "pkcs7_pad rest = rest @ replicate (16 - length rest) (of_nat (16 - length rest))"

text \<open>
  Removing the padding of the last decrypted block: its last byte \<open>n\<close> must be between 1
  and 16 and the last \<open>n\<close> bytes must all be \<open>n\<close>; otherwise \<open>final\<close> throws.
\<close>

definition pkcs7_unpad :: "bytes \<Rightarrow> exn + bytes" where
  "pkcs7_unpad bs =
     (if bs = [] then Inl (Error ''bad decrypt'')
      else (let n = unat (last bs) in
            if 1 \<le> n \<and> n \<le> 16 \<and> n \<le> length bs
               \<and> drop (length bs - n) bs = replicate n (last bs)
            then Inr (take (length bs - n) bs)
            else Inl (Error ''bad decrypt'')))"

text \<open>
  \<open>cipher.update(text)\<close> returns the ciphertext of the complete blocks of the input;
  \<open>cipher.final()\<close> returns one more block, the padded remainder, chained on the last
  block \<open>update\<close> produced (on the initialization vector when there was none).
\<close>

definition cipher_update :: "cipher \<Rightarrow> bytes \<Rightarrow> bytes \<Rightarrow> bytes" where
  "cipher_update c iv text = concat (cbc_encrypt c iv (blocks text))"

definition cipher_final :: "cipher \<Rightarrow> bytes \<Rightarrow> bytes \<Rightarrow> bytes" where
  "cipher_final c iv text =
     (let cs = cbc_encrypt c iv (blocks text);
          prev = (if cs = [] then iv else last cs)
      in enc_block c (xor_bytes (pkcs7_pad (remainder text)) prev))"

text \<open>
  \<open>decipher.update(data)\<close> followed by \<open>decipher.final()\<close>, concatenated: the data
  must be a positive number of complete blocks and end in valid padding, otherwise
  \<open>final\<close> throws.
\<close>

definition decipher_all :: "cipher \<Rightarrow> bytes \<Rightarrow> bytes \<Rightarrow> exn + bytes" where
  "decipher_all c iv encrypted =
     (if encrypted = [] \<or> length encrypted mod 16 \<noteq> 0
      then Inl (Error ''wrong final block length'')
      else pkcs7_unpad (concat (cbc_decrypt c iv (blocks encrypted))))"

subsection \<open>The manager\<close>

text \<open>
  A plaintext secret is the byte list of its UTF-8 encoding; \<open>Date\<close> values are clock
  readings. \<open>encryptedKey\<close> is the text \<open><iv-hex>:<ciphertext-hex>\<close>.
\<close>

record StoredApiKey =
  key_id :: string
  key_name :: string
  key_provider :: string
  encryptedKey :: string
  createdAt :: nat
  lastUsed :: "nat option"

record ApiKeyManager =
  keysFile :: string
  keys :: "(string \<times> StoredApiKey) list"

definition new_ApiKeyManager :: "string \<Rightarrow> ApiKeyManager" where
  "new_ApiKeyManager file = \<lparr>keysFile = file, keys = []\<rparr>"

text \<open>
  \<open>encrypt\<close>. The variable \<open>encrypted\<close> is first bound to the output of \<open>update\<close>
  and then assigned the output of \<open>final\<close>; the text returned is built from the value it
  holds last. \<open>iv\<close> is the value of \<open>crypto.randomBytes(16)\<close>.
\<close>

definition encrypt :: "cipher \<Rightarrow> bytes \<Rightarrow> bytes \<Rightarrow> string" where
  "encrypt c iv text =
     (let encrypted = to_hex (cipher_update c iv text);
          encrypted = to_hex (cipher_final c iv text)
      in to_hex iv @ '':'' @ encrypted)"

text \<open>
  \<open>decrypt\<close>. \<open>parts[1]\<close> is \<open>undefined\<close> when the text has no colon, and
  \<open>Buffer.from(undefined, 'hex')\<close> throws; \<open>createDecipheriv\<close> throws unless the
  initialization vector has 16 bytes.
\<close>

definition decrypt :: "cipher \<Rightarrow> string \<Rightarrow> exn + bytes" where
  "decrypt c encryptedText =
     (case split_on CHR '':'' encryptedText of
        p0 # p1 # _ \<Rightarrow>
          (let iv = from_hex p0; encrypted = from_hex p1 in
           if length iv \<noteq> 16 then Inl (Error ''Invalid initialization vector'')
           else decipher_all c iv encrypted)
      | _ \<Rightarrow> Inl (Error ''The first argument must be of type string''))"

text \<open>
  \<open>saveKeys\<close> writes the whole collection to the file. \<open>io\<close> is the outcome of the
  \<open>mkdir\<close> and \<open>writeFile\<close> calls: \<open>None\<close> when both succeed, \<open>Some e\<close> when one
  throws \<open>e\<close>, which \<open>saveKeys\<close> logs and throws again. The in-memory map is not
  touched; the content of the file is not part of the model.
\<close>

definition saveKeys :: "exn option \<Rightarrow> ApiKeyManager \<Rightarrow> exn + unit" where
  "saveKeys io mgr = (case io of None \<Rightarrow> Inr () | Some e \<Rightarrow> Inl e)"

text \<open>
  \<open>addKey\<close>. \<open>idBytes\<close> and \<open>iv\<close> are the two values of \<open>crypto.randomBytes(16)\<close>,
  \<open>now\<close> the value of \<open>new Date()\<close>. The record is put into the map before
  \<open>saveKeys\<close> is awaited.
\<close>

definition addKey ::
    "cipher \<Rightarrow> bytes \<Rightarrow> bytes \<Rightarrow> nat \<Rightarrow> exn option \<Rightarrow> string \<Rightarrow> string \<Rightarrow> bytes \<Rightarrow> ApiKeyManager
       \<Rightarrow> (exn + StoredApiKey) \<times> ApiKeyManager" where
  "addKey c idBytes iv now io name prov apiKey mgr =
     (let ident = to_hex idBytes;
          storedKey = \<lparr>key_id = ident, key_name = name, key_provider = prov,
                       encryptedKey = encrypt c iv apiKey, createdAt = now, lastUsed = None\<rparr>;
          mgr1 = mgr\<lparr>keys := AList.update ident storedKey (keys mgr)\<rparr>
      in case saveKeys io mgr1 of
           Inl e \<Rightarrow> (Inl e, mgr1)
         | Inr _ \<Rightarrow> (Inr storedKey, mgr1))"

text \<open>
  \<open>getKey\<close>: \<open>null\<close> for an unknown id. Otherwise the stored text is decrypted, the
  record's \<open>lastUsed\<close> is set, the collection is saved and the plaintext returned.
\<close>

definition getKey ::
    "cipher \<Rightarrow> nat \<Rightarrow> exn option \<Rightarrow> string \<Rightarrow> ApiKeyManager
       \<Rightarrow> (exn + bytes option) \<times> ApiKeyManager" where
  "getKey c now io ident mgr =
     (case map_of (keys mgr) ident of
        None \<Rightarrow> (Inr None, mgr)
      | Some storedKey \<Rightarrow>
          (case decrypt c (encryptedKey storedKey) of
             Inl e \<Rightarrow> (Inl e, mgr)
           | Inr apiKey \<Rightarrow>
               (let mgr1 = mgr\<lparr>keys := AList.update ident (storedKey\<lparr>lastUsed := Some now\<rparr>)
                                         (keys mgr)\<rparr>
                in case saveKeys io mgr1 of
                     Inl e \<Rightarrow> (Inl e, mgr1)
                   | Inr _ \<Rightarrow> (Inr (Some apiKey), mgr1))))"

definition updateKey ::
    "cipher \<Rightarrow> bytes \<Rightarrow> nat \<Rightarrow> exn option \<Rightarrow> string \<Rightarrow> bytes \<Rightarrow> ApiKeyManager
       \<Rightarrow> (exn + unit) \<times> ApiKeyManager" where
  "updateKey c iv now io ident apiKey mgr =
     (case map_of (keys mgr) ident of
        None \<Rightarrow> (Inl (Error (''API key not found: '' @ ident)), mgr)
      | Some storedKey \<Rightarrow>
          (let mgr1 = mgr\<lparr>keys := AList.update ident
                              (storedKey\<lparr>encryptedKey := encrypt c iv apiKey,
                                         lastUsed := Some now\<rparr>)
                              (keys mgr)\<rparr>
           in case saveKeys io mgr1 of
                Inl e \<Rightarrow> (Inl e, mgr1)
              | Inr _ \<Rightarrow> (Inr (), mgr1)))"

definition deleteKey ::
    "exn option \<Rightarrow> string \<Rightarrow> ApiKeyManager \<Rightarrow> (exn + unit) \<times> ApiKeyManager" where
  "deleteKey io ident mgr =
     (case map_of (keys mgr) ident of
        None \<Rightarrow> (Inl (Error (''API key not found: '' @ ident)), mgr)
      | Some storedKey \<Rightarrow>
          (let mgr1 = mgr\<lparr>keys := AList.delete ident (keys mgr)\<rparr>
           in case saveKeys io mgr1 of
                Inl e \<Rightarrow> (Inl e, mgr1)
              | Inr _ \<Rightarrow> (Inr (), mgr1)))"

definition getAllKeys :: "ApiKeyManager \<Rightarrow> StoredApiKey list" where
  "getAllKeys mgr = map snd (keys mgr)"

definition getKeysByProvider :: "ApiKeyManager \<Rightarrow> string \<Rightarrow> StoredApiKey list" where
  "getKeysByProvider mgr prov = filter (\<lambda>k. key_provider k = prov) (map snd (keys mgr))"

section \<open>The conversation orchestrator (src/core/AIAssistant.ts)\<close>

subsection \<open>Types (src/types/index.ts) and the OpenAI client\<close>

record Message =
  role :: role
  content :: string
  timestamp :: "nat option"
  msg_metadata :: any

text \<open>\<open>ToolCall\<close> has the shape of \<open>AIToolCall\<close>: id, type, function name and arguments.\<close>

type_synonym ToolCall = AIToolCall

record ToolResponse =
  toolCallId :: string
  tr_content :: string
  tr_error :: "string option"

record ConversationContext =
  messages :: "Message list"
  ctx_tools :: "Tool list"
  ctx_metadata :: any

record OpenAIConfig =
  oa_apiKey :: string
  oa_model :: string
  oa_maxTokens :: nat
  oa_temperature :: real

text \<open>
  What \<open>openai.chat.completions.create\<close> is given and what it resolves to. A
  completion is the list of its choices' messages; \<open>cm_content\<close> is \<open>None\<close> for
  \<open>null\<close>. The client itself is outside the code: a function from the request to
  the outcome of the call.
\<close>

record ChatMessageParam =
  param_role :: role
  param_content :: string
  tool_call_id :: "string option"

record ChatRequest =
  req_model :: string
  req_messages :: "ChatMessageParam list"
  req_tools :: "any list option"
  tool_choice :: "string option"
  max_tokens :: nat
  req_temperature :: real

record CompletionMessage =
  cm_content :: "string option"
  tool_calls :: "ToolCall list option"

record ChatCompletion =
  choices :: "CompletionMessage list"

type_synonym OpenAI = "ChatRequest \<Rightarrow> exn + ChatCompletion"

text \<open>What \<open>sendMessage\<close> resolves to: \<open>{ response, toolCalls? }\<close>.\<close>

record SendResult =
  sr_response :: string
  sr_toolCalls :: "ToolCall list option"

subsection \<open>The assistant\<close>

text \<open>
  \<open>conversations\<close> maps an id to a context object. The objects live in \<open>heap\<close>,
  addressed by references; \<open>next_ref\<close> is the first reference not yet given out. A
  call that holds a context (the local \<open>context\<close> of \<open>sendMessage\<close>) holds its
  reference.
\<close>

record AIAssistant =
  config :: OpenAIConfig
  conversations :: "(string \<times> nat) list"
  heap :: "nat \<Rightarrow> ConversationContext"
  next_ref :: nat

definition empty_context :: ConversationContext where
  "empty_context = \<lparr>messages = [], ctx_tools = [], ctx_metadata = JUndefined\<rparr>"

definition new_AIAssistant :: "OpenAIConfig \<Rightarrow> AIAssistant" where
  "new_AIAssistant cfg =
     \<lparr>config = cfg, conversations = [], heap = (\<lambda>r. empty_context), next_ref = 0\<rparr>"

text \<open>
  \<open>createConversation\<close>. The id is the argument unless it is absent or empty, in
  which case it is \<open>generated\<close>, the value of \<open>generateConversationId()\<close>. The
  context is a new object holding one system message (\<open>prompt\<close> is the value of
  \<open>getSystemPrompt()\<close>) and the tools the registry lists at that moment.
\<close>

definition createConversation ::
    "PluginManager \<Rightarrow> string \<Rightarrow> string \<Rightarrow> nat \<Rightarrow> string option \<Rightarrow> AIAssistant
       \<Rightarrow> string \<times> AIAssistant" where
  "createConversation pm generated prompt now conversationId self =
     (let ident = (case conversationId of
                     None \<Rightarrow> generated
                   | Some i \<Rightarrow> if i = [] then generated else i);
          context = \<lparr>messages = [\<lparr>role = System, content = prompt, timestamp = Some now,
                                    msg_metadata = JUndefined\<rparr>],
                     ctx_tools = getAllTools pm,
                     ctx_metadata = JObj [(''createdAt'', JNum (int now))]\<rparr>;
          r = next_ref self
      in (ident,
          self\<lparr>conversations := AList.update ident r (conversations self),
               heap := (heap self)(r := context),
               next_ref := Suc r\<rparr>))"

definition getConversation :: "AIAssistant \<Rightarrow> string \<Rightarrow> ConversationContext option" where
  "getConversation self conversationId =
     map_option (heap self) (map_of (conversations self) conversationId)"

definition deleteConversation :: "string \<Rightarrow> AIAssistant \<Rightarrow> bool \<times> AIAssistant" where
  "deleteConversation conversationId self =
     (map_of (conversations self) conversationId \<noteq> None,
      self\<lparr>conversations := AList.delete conversationId (conversations self)\<rparr>)"

definition clearAllConversations :: "AIAssistant \<Rightarrow> AIAssistant" where
  "clearAllConversations self = self\<lparr>conversations := []\<rparr>"

text \<open>\<open>context.messages.push(m)\<close> on the context at reference \<open>r\<close>.\<close>

definition push_message :: "nat \<Rightarrow> Message \<Rightarrow> AIAssistant \<Rightarrow> AIAssistant" where
  "push_message r m self =
     self\<lparr>heap := (heap self)(r := (heap self r)\<lparr>messages := messages (heap self r) @ [m]\<rparr>)\<rparr>"

text \<open>
  \<open>m.metadata?.toolCallId || ''\<close>. Tool messages are only built by \<open>sendMessage\<close>,
  which stores a string there.
\<close>

definition get_toolCallId :: "any \<Rightarrow> string" where
  "get_toolCallId md =
     (case md of
        JObj kvs \<Rightarrow> (case map_of kvs ''toolCallId'' of Some (JStr s) \<Rightarrow> s | _ \<Rightarrow> [])
      | _ \<Rightarrow> [])"

text \<open>The mapping of the transcript to request messages, the same in both calls.\<close>

definition api_message :: "Message \<Rightarrow> ChatMessageParam" where
  "api_message m =
     (if role m = ToolRole
      then \<lparr>param_role = role m, param_content = content m,
            tool_call_id = Some (get_toolCallId (msg_metadata m))\<rparr>
      else \<lparr>param_role = role m, param_content = content m, tool_call_id = None\<rparr>)"

definition formatToolsForOpenAI :: "Tool list \<Rightarrow> any list" where
  "formatToolsForOpenAI tls =
     map (\<lambda>tool. JObj [(''type'', JStr ''function''),
                       (''function'', JObj [(''name'', JStr (tool_name tool)),
                                            (''description'', JStr (tool_description tool)),
                                            (''parameters'', tool_parameters tool)])]) tls"

definition first_request :: "OpenAIConfig \<Rightarrow> ConversationContext \<Rightarrow> ChatRequest" where
  "first_request cfg context =
     \<lparr>req_model = oa_model cfg,
      req_messages = map api_message (messages context),
      req_tools = Some (formatToolsForOpenAI (ctx_tools context)),
      tool_choice = Some ''auto'',
      max_tokens = oa_maxTokens cfg,
      req_temperature = oa_temperature cfg\<rparr>"

definition followup_request :: "OpenAIConfig \<Rightarrow> ConversationContext \<Rightarrow> ChatRequest" where
  "followup_request cfg context =
     \<lparr>req_model = oa_model cfg,
      req_messages = map api_message (messages context),
      req_tools = None,
      tool_choice = None,
      max_tokens = oa_maxTokens cfg,
      req_temperature = oa_temperature cfg\<rparr>"

text \<open>\<open>message.content || ''\<close>.\<close>

definition or_empty :: "string option \<Rightarrow> string" where
  "or_empty c = (case c of None \<Rightarrow> [] | Some s \<Rightarrow> s)"

definition userMessage :: "string \<Rightarrow> any \<Rightarrow> nat \<Rightarrow> Message" where
  "userMessage text md now =
     \<lparr>role = User, content = text, timestamp = Some now, msg_metadata = md\<rparr>"

definition assistantMsg :: "CompletionMessage \<Rightarrow> nat \<Rightarrow> Message" where
  "assistantMsg assistantMessage now =
     \<lparr>role = Assistant, content = or_empty (cm_content assistantMessage),
      timestamp = Some now, msg_metadata = JUndefined\<rparr>"

definition toolMsg :: "ToolResponse \<Rightarrow> nat \<Rightarrow> Message" where
  "toolMsg toolResponse now =
     \<lparr>role = ToolRole, content = tr_content toolResponse, timestamp = Some now,
      msg_metadata = JObj [(''toolCallId'', JStr (toolCallId toolResponse)),
                           (''error'', (case tr_error toolResponse of
                                          None \<Rightarrow> JUndefined
                                        | Some e \<Rightarrow> JStr e))]\<rparr>"

subsection \<open>Executing the requested tool calls\<close>

text \<open>The object \<open>{ ...result, executionTime }\<close> as data.\<close>

definition json_of_output :: "ToolOutput \<Rightarrow> any" where
  "json_of_output out =
     JObj [(''success'', JBool (success out)),
           (''data'', data out),
           (''error'', (case error out of None \<Rightarrow> JUndefined | Some e \<Rightarrow> JStr e)),
           (''metadata'', metadata out),
           (''executionTime'', JNum (executionTime out))]"

text \<open>\<open>error instanceof Error ? error.message : String(error)\<close>.\<close>

definition errorMessage :: "exn \<Rightarrow> string" where
  "errorMessage err = (case err of Error m \<Rightarrow> m | Thrown s \<Rightarrow> s)"

text \<open>
  One turn of the loop of \<open>executeToolCalls\<close>: the \<open>try\<close> block parses the
  arguments and awaits \<open>executeTool\<close>; whatever it throws is caught and becomes an
  error response carrying the same call id.
\<close>

definition tool_call_response ::
    "runtime \<Rightarrow> PluginManager \<Rightarrow> ToolCall \<Rightarrow> world \<Rightarrow> ToolResponse \<times> world" where
  "tool_call_response rt pm toolCall w =
     (let caught = (\<lambda>err. \<lparr>toolCallId = call_id toolCall,
                            tr_content = JSON_stringify rt (JObj [(''error'', JStr (errorMessage err))]),
                            tr_error = Some (errorMessage err)\<rparr>)
      in case JSON_parse rt (arguments (call_function toolCall)) of
           Inl err \<Rightarrow> (caught err, w)
         | Inr params \<Rightarrow>
             (case executeTool rt pm (fn_name (call_function toolCall)) params w of
                (Inl err, w') \<Rightarrow> (caught err, w')
              | (Inr result, w') \<Rightarrow>
                  (\<lparr>toolCallId = call_id toolCall,
                    tr_content = JSON_stringify rt (json_of_output result),
                    tr_error = None\<rparr>, w')))"

text \<open>
  \<open>executeToolCalls\<close>: \<open>for (const toolCall of toolCalls)\<close>, each turn awaiting its
  call in the world the turns before it left, and pushing one response onto
  \<open>responses\<close>.
\<close>

definition executeToolCalls ::
    "runtime \<Rightarrow> PluginManager \<Rightarrow> ToolCall list \<Rightarrow> world \<Rightarrow> ToolResponse list \<times> world" where
  "executeToolCalls rt pm toolCalls w =
     fold (\<lambda>toolCall (responses, w1).
             (case tool_call_response rt pm toolCall w1 of
                (response, w2) \<Rightarrow> (responses @ [response], w2)))
       toolCalls ([], w)"

text \<open>
  \<open>for (const toolResponse of toolResponses) context.messages.push(toolMsg)\<close>. Each
  turn reads the clock for its message: \<open>now i\<close> is the reading of turn \<open>i\<close>.
\<close>

definition push_tool_messages ::
    "nat \<Rightarrow> ToolResponse list \<Rightarrow> (nat \<Rightarrow> nat) \<Rightarrow> AIAssistant \<Rightarrow> AIAssistant" where
  "push_tool_messages r toolResponses now self =
     fold (\<lambda>p s. push_message r (toolMsg (snd p) (now (fst p))) s)
       (enumerate 0 toolResponses) self"

subsection \<open>\<open>sendMessage\<close>, run without interruption\<close>

text \<open>
  \<open>sendMessage\<close> when nothing else runs between its steps. \<open>openai\<close> answers the
  two requests. \<open>now k\<close> is what the \<open>k\<close>-th \<open>new Date()\<close> of the call reads:
  reading 0 stamps the user message, reading 1 the first assistant message, reading
  \<open>2 + i\<close> the tool message of response \<open>i\<close>, and the reading after those the
  final assistant message. The tools run in the world \<open>w\<close>; the world they leave is
  returned. An unknown conversation throws before anything is appended.
  \<open>response.choices[0].message\<close> throws a \<open>TypeError\<close> on a completion without
  choices. Every throw inside the \<open>try\<close> block is logged and thrown again; what was
  appended before stays.
\<close>

definition no_choice :: exn where
  "no_choice = Error ''Cannot read properties of undefined (reading message)''"

definition sendMessage ::
    "runtime \<Rightarrow> PluginManager \<Rightarrow> OpenAI \<Rightarrow> (nat \<Rightarrow> nat) \<Rightarrow> string \<Rightarrow> string \<Rightarrow> any
       \<Rightarrow> AIAssistant \<Rightarrow> world \<Rightarrow> (exn + SendResult) \<times> AIAssistant \<times> world" where
  "sendMessage rt pm openai now conversationId text md self w =
     (case map_of (conversations self) conversationId of
        None \<Rightarrow> (Inl (Error (''Conversation not found: '' @ conversationId)), self, w)
      | Some r \<Rightarrow>
          (let self1 = push_message r (userMessage text md (now 0)) self in
           case openai (first_request (config self1) (heap self1 r)) of
             Inl err \<Rightarrow> (Inl err, self1, w)
           | Inr response \<Rightarrow>
               (case choices response of
                  [] \<Rightarrow> (Inl no_choice, self1, w)
                | assistantMessage # _ \<Rightarrow>
                    (let self2 = push_message r (assistantMsg assistantMessage (now 1)) self1;
                         toolCalls = tool_calls assistantMessage
                     in case toolCalls of
                          Some (tc # tcs) \<Rightarrow>
                            (case executeToolCalls rt pm (tc # tcs) w of
                               (toolResponses, w') \<Rightarrow>
                                 (let self3 = push_tool_messages r toolResponses
                                                (\<lambda>i. now (2 + i)) self2
                                  in case openai (followup_request (config self3) (heap self3 r)) of
                                       Inl err \<Rightarrow> (Inl err, self3, w')
                                     | Inr followUpResponse \<Rightarrow>
                                         (case choices followUpResponse of
                                            [] \<Rightarrow> (Inl no_choice, self3, w')
                                          | followUpMessage # _ \<Rightarrow>
                                              (Inr \<lparr>sr_response = or_empty (cm_content followUpMessage),
                                                    sr_toolCalls = None\<rparr>,
                                               push_message r
                                                 (assistantMsg followUpMessage
                                                    (now (2 + length toolResponses))) self3,
                                               w'))))
                        | _ \<Rightarrow>
                            (Inr \<lparr>sr_response = or_empty (cm_content assistantMessage),
                                  sr_toolCalls = toolCalls\<rparr>,
                             self2, w)))))"

subsection \<open>Turns that overlap\<close>

text \<open>
  \<open>sendMessage\<close> is an async function: it runs until an \<open>await\<close>, and other calls run
  before it is resumed. A call in flight is a task: where it is suspended, and the
  reference of the context it holds in its local \<open>context\<close>.
\<close>

datatype task =
    AwaitReply nat
  | AwaitTools nat "ToolCall list"
  | AwaitFollowUp nat
  | Settled "exn + SendResult"

text \<open>
  A call is named by a label: the conversation id it was given and a number telling apart
  the calls on that id.
\<close>

type_synonym label = "string \<times> nat"

text \<open>
  The loop of \<open>executeToolCalls\<close> awaits each tool, so other calls run between its
  turns and may act on the world. \<open>worlds i\<close> is the world in which turn \<open>i\<close> of the
  loop finds itself; nothing is assumed about it.
\<close>

definition executeToolCalls_in ::
    "runtime \<Rightarrow> PluginManager \<Rightarrow> ToolCall list \<Rightarrow> (nat \<Rightarrow> world) \<Rightarrow> ToolResponse list" where
  "executeToolCalls_in rt pm toolCalls worlds =
     map (\<lambda>p. fst (tool_call_response rt pm (snd p) (worlds (fst p)))) (enumerate 0 toolCalls)"

text \<open>
  What can happen next: \<open>sendMessage\<close> is called; the provider's answer to the request
  of a suspended call arrives, whatever it is; \<open>executeToolCalls\<close> of a suspended call
  has finished, its turns having run in the worlds the event names. Each carries what
  \<open>new Date()\<close> reads at that moment; the last one a reading for each tool message.
\<close>

datatype event =
    Call label string any nat
  | Reply label "exn + ChatCompletion" nat
  | ToolsDone label "nat \<Rightarrow> world" "nat \<Rightarrow> nat"

fun label_of :: "event \<Rightarrow> label" where
  "label_of (Call l text md now) = l"
| "label_of (Reply l outcome now) = l"
| "label_of (ToolsDone l worlds now) = l"

definition conversation_of :: "event \<Rightarrow> string" where
  "conversation_of ev = fst (label_of ev)"

record system =
  assistant :: AIAssistant
  pending :: "label \<Rightarrow> task option"

definition idle :: "AIAssistant \<Rightarrow> system" where
  "idle a = \<lparr>assistant = a, pending = (\<lambda>l. None)\<rparr>"

text \<open>
  One uninterrupted stretch of \<open>sendMessage\<close>: from the call to the first \<open>await\<close>,
  or from one \<open>await\<close> to the next, or to the end. An event for a call that is not
  suspended at the matching \<open>await\<close> changes nothing.
\<close>

fun step :: "runtime \<Rightarrow> PluginManager \<Rightarrow> event \<Rightarrow> system \<Rightarrow> system" where
  "step rt pm (Call l text md now) sys =
     (case map_of (conversations (assistant sys)) (fst l) of
        None \<Rightarrow>
          sys\<lparr>pending := (pending sys)
                 (l \<mapsto> Settled (Inl (Error (''Conversation not found: '' @ fst l))))\<rparr>
      | Some r \<Rightarrow>
          sys\<lparr>assistant := push_message r (userMessage text md now) (assistant sys),
              pending := (pending sys)(l \<mapsto> AwaitReply r)\<rparr>)"
| "step rt pm (Reply l outcome now) sys =
     (case pending sys l of
        Some (AwaitReply r) \<Rightarrow>
          (case outcome of
             Inl err \<Rightarrow> sys\<lparr>pending := (pending sys)(l \<mapsto> Settled (Inl err))\<rparr>
           | Inr response \<Rightarrow>
               (case choices response of
                  [] \<Rightarrow> sys\<lparr>pending := (pending sys)(l \<mapsto> Settled (Inl no_choice))\<rparr>
                | assistantMessage # _ \<Rightarrow>
                    (let a1 = push_message r (assistantMsg assistantMessage now) (assistant sys);
                         toolCalls = tool_calls assistantMessage
                     in case toolCalls of
                          Some (tc # tcs) \<Rightarrow>
                            sys\<lparr>assistant := a1,
                                pending := (pending sys)(l \<mapsto> AwaitTools r (tc # tcs))\<rparr>
                        | _ \<Rightarrow>
                            sys\<lparr>assistant := a1,
                                pending := (pending sys)
                                  (l \<mapsto> Settled (Inr \<lparr>sr_response = or_empty (cm_content assistantMessage),
                                                        sr_toolCalls = toolCalls\<rparr>))\<rparr>)))
      | Some (AwaitFollowUp r) \<Rightarrow>
          (case outcome of
             Inl err \<Rightarrow> sys\<lparr>pending := (pending sys)(l \<mapsto> Settled (Inl err))\<rparr>
           | Inr followUpResponse \<Rightarrow>
               (case choices followUpResponse of
                  [] \<Rightarrow> sys\<lparr>pending := (pending sys)(l \<mapsto> Settled (Inl no_choice))\<rparr>
                | followUpMessage # _ \<Rightarrow>
                    sys\<lparr>assistant := push_message r (assistantMsg followUpMessage now) (assistant sys),
                        pending := (pending sys)
                          (l \<mapsto> Settled (Inr \<lparr>sr_response = or_empty (cm_content followUpMessage),
                                                sr_toolCalls = None\<rparr>))\<rparr>))
      | _ \<Rightarrow> sys)"
| "step rt pm (ToolsDone l worlds now) sys =
     (case pending sys l of
        Some (AwaitTools r toolCalls) \<Rightarrow>
          sys\<lparr>assistant := push_tool_messages r (executeToolCalls_in rt pm toolCalls worlds) now
                             (assistant sys),
              pending := (pending sys)(l \<mapsto> AwaitFollowUp r)\<rparr>
      | _ \<Rightarrow> sys)"

text \<open>A schedule is a list of events, run in order.\<close>

definition run :: "runtime \<Rightarrow> PluginManager \<Rightarrow> event list \<Rightarrow> system \<Rightarrow> system" where
  "run rt pm evs sys = fold (step rt pm) evs sys"

text \<open>
  The states that arise: no two conversation ids share a context object, and a suspended
  call holds the context of the conversation it was addressed to.
\<close>

fun task_ref :: "task \<Rightarrow> nat option" where
  "task_ref (AwaitReply r) = Some r"
| "task_ref (AwaitTools r toolCalls) = Some r"
| "task_ref (AwaitFollowUp r) = Some r"
| "task_ref (Settled res) = None"

definition wf :: "system \<Rightarrow> bool" where
  "wf sys \<longleftrightarrow>
     distinct (map snd (conversations (assistant sys)))
     \<and> (\<forall>l t r. pending sys l = Some t \<longrightarrow> task_ref t = Some r \<longrightarrow>
            map_of (conversations (assistant sys)) (fst l) = Some r)"

text \<open>What \<open>createConversation\<close> maintains: references in use are below \<open>next_ref\<close>.\<close>

definition refs_ok :: "AIAssistant \<Rightarrow> bool" where
  "refs_ok a \<longleftrightarrow>
     distinct (map snd (conversations a))
     \<and> (\<forall>r \<in> snd ` set (conversations a). r < next_ref a)"


text \<open>
  Two states agree on a conversation id when they have the same conversation map, the
  same context object for that id, and the same suspended calls addressed to it.
\<close>

definition agree_on :: "string \<Rightarrow> system \<Rightarrow> system \<Rightarrow> bool" where
  "agree_on b s t \<longleftrightarrow>
     wf s \<and> wf t
     \<and> conversations (assistant s) = conversations (assistant t)
     \<and> (\<forall>r. map_of (conversations (assistant s)) b = Some r \<longrightarrow>
            heap (assistant s) r = heap (assistant t) r)
     \<and> (\<forall>n. pending s (b, n) = pending t (b, n))"

section \<open>Example inputs\<close>

definition rt0 :: runtime where
  "rt0 = \<lparr>JSON_parse = (\<lambda>s. if s = ''{}'' then Inr (JObj [])
                             else if s = ''1'' then Inr (JNum 1)
                             else if s = ''2'' then Inr (JNum 2)
                             else Inl (Error ''Unexpected token'')),
          JSON_stringify = (\<lambda>v. ''<json>''),
          elapsed = (\<lambda>n p. 0)\<rparr>"

definition get_time :: Tool where
  "get_time = \<lparr>tool_name = ''get_time'', tool_description = ''current time'',
     tool_parameters = JObj [],
     execute = (\<lambda>p w. (Inr \<lparr>success = True,
                               data = JObj [(''now'', JStr ''2024-01-01T00:00:00Z'')],
                               error = None, metadata = JUndefined\<rparr>, w))\<rparr>"

definition clock_plugin :: Plugin where
  "clock_plugin = \<lparr>plugin_name = ''clock'', version = ''1.0.0'',
     plugin_description = ''time tools'', author = None, enabled = True,
     plugin_tools = [get_time], initialize = None, cleanup = None\<rparr>"

definition crash :: Tool where
  "crash = \<lparr>tool_name = ''crash'', tool_description = ''always throws'',
     tool_parameters = JObj [],
     execute = (\<lambda>p w. (Inl (Error ''disk unreachable''), w))\<rparr>"

definition crash_plugin :: Plugin where
  "crash_plugin = \<lparr>plugin_name = ''crash'', version = ''1.0.0'',
     plugin_description = ''failing tools'', author = None, enabled = True,
     plugin_tools = [crash], initialize = None, cleanup = None\<rparr>"






text \<open>
  A tool that acts on the world: it files its parameters as a note and answers with the
  number of resources the world held before.
\<close>

definition take_note :: Tool where
  "take_note = \<lparr>tool_name = ''take_note'', tool_description = ''file a note'',
     tool_parameters = JObj [],
     execute = (\<lambda>p w. (Inr \<lparr>success = True, data = JNum (int (length w)),
                               error = None, metadata = JUndefined\<rparr>,
                          w @ [(''note'', p)]))\<rparr>"

definition notes_plugin :: Plugin where
  "notes_plugin = \<lparr>plugin_name = ''notes'', version = ''1.0.0'',
     plugin_description = ''note taking'', author = None, enabled = True,
     plugin_tools = [take_note], initialize = None, cleanup = None\<rparr>"

definition pong_client :: AIProviderClient where
  "pong_client = \<lparr>client_chat = (\<lambda>ms ts. Inr \<lparr>response_content = ''pong'',
                                                response_toolCalls = None, usage = None\<rparr>),
                   client_streamChat = None\<rparr>"

definition pong_provider :: AIProvider where
  "pong_provider = \<lparr>provider_name = ''pong'', displayName = ''Pong'', models = [''pong-1''],
                     createClient = (\<lambda>c. Inr pong_client)\<rparr>"

definition pong_config :: AIModelConfig where
  "pong_config = \<lparr>cfg_provider = ''pong'', cfg_model = ''pong-1'', cfg_apiKey = None,
                   cfg_baseUrl = None, cfg_maxTokens = None, cfg_temperature = None\<rparr>"

definition pong_manager :: AIProviderManager where
  "pong_manager = snd (setProvider pong_config (registerProvider pong_provider new_AIProviderManager))"

definition ping :: "AIMessage list" where
  "ping = [\<lparr>ai_role = User, ai_content = ''ping'', ai_toolCallId = None\<rparr>]"

text \<open>
  A stand-in block cipher for concrete runs: it adds 1 to every byte. It has the two
  properties \<open>block_cipher\<close> asks for.
\<close>

definition toy_cipher :: cipher where
  "toy_cipher = \<lparr>enc_block = map (\<lambda>x. x + 1), dec_block = map (\<lambda>x. x - 1)\<rparr>"

definition iv0 :: bytes where
  "iv0 = [0, 1, 2, 3, 4, 5, 6, 7, 8, 9, 10, 11, 12, 13, 14, 15]"

definition id0 :: bytes where
  "id0 = [171, 205]"

text \<open>The 16 bytes of the ASCII text \<open>sk-0123456789abc\<close>, and the 3 of \<open>abc\<close>.\<close>

definition long_secret :: bytes where
  "long_secret = [115, 107, 45, 48, 49, 50, 51, 52, 53, 54, 55, 56, 57, 97, 98, 99]"

definition short_secret :: bytes where
  "short_secret = [97, 98, 99]"

definition empty_store :: ApiKeyManager where
  "empty_store = new_ApiKeyManager ''data/api-keys.json''"

definition one_key_store :: ApiKeyManager where
  "one_key_store =
     snd (addKey toy_cipher id0 iv0 5 None ''work'' ''openai'' short_secret empty_store)"

definition cfg0 :: OpenAIConfig where
  "cfg0 = \<lparr>oa_apiKey = ''sk-test'', oa_model = ''gpt-4o-mini'', oa_maxTokens = 1024,
           oa_temperature = 0\<rparr>"

text \<open>A stub provider that echoes the last message of the request and asks for no tool.\<close>

definition echo_openai :: OpenAI where
  "echo_openai request =
     (case req_messages request of
        [] \<Rightarrow> Inl (Error ''empty request'')
      | ms \<Rightarrow> Inr \<lparr>choices = [\<lparr>cm_content = Some (''echo: '' @ param_content (last ms)),
                                 tool_calls = None\<rparr>]\<rparr>)"

definition c1_call :: ToolCall where
  "c1_call = \<lparr>call_id = ''c1'', call_type = ''function'',
              call_function = \<lparr>fn_name = ''get_time'', arguments = ''{}''\<rparr>\<rparr>"

definition c2_call :: ToolCall where
  "c2_call = \<lparr>call_id = ''c2'', call_type = ''function'',
              call_function = \<lparr>fn_name = ''missing_tool'', arguments = ''{}''\<rparr>\<rparr>"

definition n1_call :: ToolCall where
  "n1_call = \<lparr>call_id = ''n1'', call_type = ''function'',
              call_function = \<lparr>fn_name = ''take_note'', arguments = ''1''\<rparr>\<rparr>"

definition n2_call :: ToolCall where
  "n2_call = \<lparr>call_id = ''n2'', call_type = ''function'',
              call_function = \<lparr>fn_name = ''take_note'', arguments = ''2''\<rparr>\<rparr>"

text \<open>
  A stub provider that asks for three calls when it is offered tools and answers
  with text when it is not (the follow-up request carries no tools).
\<close>

definition tool_openai :: OpenAI where
  "tool_openai request =
     (case req_tools request of
        Some _ \<Rightarrow> Inr \<lparr>choices = [\<lparr>cm_content = None,
                                    tool_calls = Some [n1_call, c2_call, n2_call]\<rparr>]\<rparr>
      | None \<Rightarrow> Inr \<lparr>choices = [\<lparr>cm_content = Some ''It is midnight.'', tool_calls = None\<rparr>]\<rparr>)"

definition clock_registry :: PluginManager where
  "clock_registry = registerPlugin notes_plugin (registerPlugin clock_plugin new_PluginManager)"

definition two_conversations :: AIAssistant where
  "two_conversations =
     snd (createConversation clock_registry ''conv_2'' ''You are helpful.'' 2 (Some ''b'')
       (snd (createConversation clock_registry ''conv_1'' ''You are helpful.'' 1 (Some ''a'')
         (new_AIAssistant cfg0))))"

definition context_a :: ConversationContext where
  "context_a = \<lparr>messages = [\<lparr>role = System, content = ''You are helpful.'',
                                timestamp = Some 1, msg_metadata = JUndefined\<rparr>],
                 ctx_tools = getAllTools clock_registry,
                 ctx_metadata = JObj [(''createdAt'', JNum 1)]\<rparr>"

definition asks_two_tools :: CompletionMessage where
  "asks_two_tools = \<lparr>cm_content = None, tool_calls = Some [c1_call, c2_call]\<rparr>"

definition asks_three_tools :: CompletionMessage where
  "asks_three_tools = \<lparr>cm_content = None, tool_calls = Some [n1_call, c2_call, n2_call]\<rparr>"

definition echo_hello :: CompletionMessage where
  "echo_hello = \<lparr>cm_content = Some ''echo: hello'', tool_calls = None\<rparr>"

definition midnight :: SendResult where
  "midnight = \<lparr>sr_response = ''It is midnight.'', sr_toolCalls = None\<rparr>"

definition interleaved :: "event list" where
  "interleaved =
     [Call (''a'', 0) ''hi'' JUndefined 3,
      Call (''b'', 0) ''what time is it'' JUndefined 4,
      Reply (''b'', 0) (Inr \<lparr>choices = [asks_two_tools]\<rparr>) 5,
      Reply (''a'', 0) (Inr \<lparr>choices = [echo_hello]\<rparr>) 6,
      ToolsDone (''b'', 0) (\<lambda>i. []) (\<lambda>i. 7 + i),
      Call (''a'', 1) ''again'' JUndefined 9,
      Reply (''b'', 0) (Inr \<lparr>choices = [echo_hello]\<rparr>) 10]"

section \<open>Lookup after registration and removal\<close>






lemma unregisterPlugin_throws:
  "getPlugin pm pluginName = Some p \<Longrightarrow> cleanup p = Some (Inl err) \<Longrightarrow>
   unregisterPlugin pluginName pm = (Inl err, pm)"
  by (simp add: getPlugin_def unregisterPlugin_def)



section \<open>Dispatch of an unknown tool name\<close>

text \<open>
  C7. For every name that is not a key of the tool map, \<open>executeTool\<close> throws an
  \<open>Error\<close> whose message is \<open>Tool not found: \<close> followed by the requested name.
  The outcome is a throw (\<open>Inl\<close>), not a returned result object (\<open>Inr\<close>), whatever
  the parameters are; no executor has run, so the world is as it was.
\<close>

theorem executeTool_unknown_name:
  assumes "getTool pm toolName = None"
  shows "executeTool rt pm toolName params w
           = (Inl (Error (''Tool not found: '' @ toolName)), w)"
  using assms by (simp add: executeTool_def getTool_def)

theorem executeTool_unknown_name_witness:
  "getTool (registerPlugin clock_plugin new_PluginManager) ''missing_tool'' = None
   \<and> executeTool rt0 (registerPlugin clock_plugin new_PluginManager) ''missing_tool'' (JObj []) []
       = (Inl (Error ''Tool not found: missing_tool''), [])"
proof -
  have h: "getTool (registerPlugin clock_plugin new_PluginManager) ''missing_tool'' = None"
    by (simp add: getTool_def registerPlugin_def clock_plugin_def new_PluginManager_def
        get_time_def)
  show ?thesis
    using h executeTool_unknown_name [OF h, of rt0 "JObj []" "[]"] by simp
qed

section \<open>Dispatch of a tool whose executor throws\<close>

text \<open>
  C2, as the specification states it, fails: for the registered tool \<open>crash\<close>, whose
  executor throws, \<open>executeTool\<close> does not return a result object with
  \<open>success: false\<close>; the thrown error leaves \<open>executeTool\<close>.
\<close>

theorem executeTool_throw_propagates_counterexample:
  "getTool (registerPlugin crash_plugin new_PluginManager) ''crash'' = Some crash
   \<and> execute crash (JObj []) [] = (Inl (Error ''disk unreachable''), [])
   \<and> executeTool rt0 (registerPlugin crash_plugin new_PluginManager) ''crash'' (JObj []) []
       = (Inl (Error ''disk unreachable''), [])"
  by (simp add: getTool_def registerPlugin_def crash_plugin_def new_PluginManager_def
      crash_def executeTool_def)

text \<open>
  C2, amended. For every registered tool whose executor throws, \<open>executeTool\<close> throws
  that same value to its caller: the \<open>catch\<close> branch logs and rethrows, and no result
  object is returned. The world is as the executor left it.
\<close>

theorem executeTool_rethrows:
  assumes "getTool pm toolName = Some tool"
    and "execute tool params w = (Inl err, w')"
  shows "executeTool rt pm toolName params w = (Inl err, w')"
  using assms by (simp add: executeTool_def getTool_def)

theorem executeTool_rethrows_witness:
  "getTool (registerPlugin crash_plugin new_PluginManager) ''crash'' = Some crash
   \<and> execute crash (JNum 7) [] = (Inl (Error ''disk unreachable''), [])
   \<and> executeTool rt0 (registerPlugin crash_plugin new_PluginManager) ''crash'' (JNum 7) []
       = (Inl (Error ''disk unreachable''), [])"
proof -
  have h1: "getTool (registerPlugin crash_plugin new_PluginManager) ''crash'' = Some crash"
    by (simp add: getTool_def registerPlugin_def crash_plugin_def new_PluginManager_def
        crash_def)
  have h2: "execute crash (JNum 7) [] = (Inl (Error ''disk unreachable''), [])"
    by (simp add: crash_def)
  show ?thesis
    using h1 h2 executeTool_rethrows [OF h1 h2, of rt0] by simp
qed

section \<open>Tools of the same name in two plugins\<close>




section \<open>Streaming through a client that has no streaming of its own\<close>

lemma currentProvider_pong_manager: "currentProvider pong_manager = Some pong_client"
  by (simp add: pong_manager_def setProvider_def registerProvider_def
      new_AIProviderManager_def pong_provider_def pong_config_def)

text \<open>
  C5, as the specification states it, fails: for the active client \<open>pong_client\<close>,
  which has no \<open>streamChat\<close> and answers \<open>pong\<close>, the stream is a single chunk whose
  \<open>done\<close> flag is true. There is no chunk with \<open>done: false\<close> and no second chunk.
\<close>

theorem streamChat_fallback_counterexample:
  "currentProvider pong_manager = Some pong_client
   \<and> client_streamChat pong_client = None
   \<and> streamChat pong_manager ping None = ([\<lparr>chunk_content = ''pong'', chunk_done = True\<rparr>], None)
   \<and> filter (\<lambda>c. \<not> chunk_done c) (fst (streamChat pong_manager ping None)) = []
   \<and> length (fst (streamChat pong_manager ping None)) = 1"
  by (simp add: currentProvider_pong_manager streamChat_def pong_client_def)

text \<open>
  C5, amended. For every active client without a \<open>streamChat\<close> of its own and every
  message list on which the client's \<open>chat\<close> returns, the registry's \<open>streamChat\<close>
  yields exactly one chunk and then ends: the chunk's content is the content \<open>chat\<close>
  returned on the same messages and tools, and its \<open>done\<close> flag is true.
\<close>

theorem streamChat_fallback_single_done_chunk:
  assumes "currentProvider mgr = Some client"
    and "client_streamChat client = None"
    and "chat mgr msgs tls = Inr response"
  shows "streamChat mgr msgs tls =
           ([\<lparr>chunk_content = response_content response, chunk_done = True\<rparr>], None)"
  using assms by (simp add: streamChat_def chat_def)

theorem streamChat_fallback_single_done_chunk_witness:
  "currentProvider pong_manager = Some pong_client
   \<and> client_streamChat pong_client = None
   \<and> chat pong_manager ping None
       = Inr \<lparr>response_content = ''pong'', response_toolCalls = None, usage = None\<rparr>
   \<and> streamChat pong_manager ping None = ([\<lparr>chunk_content = ''pong'', chunk_done = True\<rparr>], None)"
proof -
  have h1: "currentProvider pong_manager = Some pong_client"
    by (rule currentProvider_pong_manager)
  have h2: "client_streamChat pong_client = None"
    by (simp add: pong_client_def)
  have h3: "chat pong_manager ping None
              = Inr \<lparr>response_content = ''pong'', response_toolCalls = None, usage = None\<rparr>"
    by (simp add: chat_def h1 pong_client_def)
  show ?thesis
    using h1 h2 h3 streamChat_fallback_single_done_chunk [OF h1 h2 h3] by simp
qed

section \<open>Hex text, padding and block chaining\<close>

lemma hex_value_hex_digit: "n < 16 \<Longrightarrow> hex_value (hex_digit n) = Some n"
  by (simp add: hex_value_def hex_digit_def)

lemma hex_digit_not_colon: "n < 16 \<Longrightarrow> hex_digit n \<noteq> CHR '':''"
proof -
  assume n: "n < 16"
  have "of_char (hex_digit n) \<noteq> (58::nat)"
    using n by (simp add: hex_digit_def)
  moreover have "of_char (CHR '':'') = (58::nat)" by simp
  ultimately show ?thesis by metis
qed

lemma from_hex_to_hex: "from_hex (to_hex bs) = bs"
proof (induction bs)
  case Nil
  then show ?case by (simp add: to_hex_def)
next
  case (Cons b bs)
  have "unat b < 256"
    using unsigned_less [of b, where ?'a = nat] by simp
  then have d: "unat b div 16 < 16" by arith
  have m: "unat b mod 16 < 16" by simp
  have "to_hex (b # bs) = hex_digit (unat b div 16) # hex_digit (unat b mod 16) # to_hex bs"
    by (simp add: to_hex_def)
  then show ?case
    using Cons.IH hex_value_hex_digit [OF d] hex_value_hex_digit [OF m] by simp
qed

lemma colon_notin_to_hex: "CHR '':'' \<notin> set (to_hex bs)"
proof (induction bs)
  case Nil
  then show ?case by (simp add: to_hex_def)
next
  case (Cons b bs)
  have "unat b < 256"
    using unsigned_less [of b, where ?'a = nat] by simp
  then have d: "unat b div 16 < 16" by arith
  have m: "unat b mod 16 < 16" by simp
  have "to_hex (b # bs) = hex_digit (unat b div 16) # hex_digit (unat b mod 16) # to_hex bs"
    by (simp add: to_hex_def)
  then show ?case
    using Cons.IH hex_digit_not_colon [OF d] hex_digit_not_colon [OF m] by auto
qed

lemma split_on_absent: "sep \<notin> set xs \<Longrightarrow> split_on sep xs = [xs]"
  by (induction xs) auto

lemma split_on_first: "sep \<notin> set xs \<Longrightarrow> split_on sep (xs @ sep # ys) = xs # split_on sep ys"
  by (induction xs) auto

lemma split_encrypted:
  "split_on CHR '':'' (to_hex a @ CHR '':'' # to_hex b) = [to_hex a, to_hex b]"
  using split_on_first [OF colon_notin_to_hex, of a "to_hex b"]
    split_on_absent [OF colon_notin_to_hex, of b] by simp

lemma decrypt_encrypt:
  "length iv = 16 \<Longrightarrow>
   decrypt c (encrypt c iv text) = decipher_all c iv (cipher_final c iv text)"
  by (simp add: decrypt_def encrypt_def split_encrypted from_hex_to_hex Let_def)


lemma length_xor_bytes: "length (xor_bytes a b) = min (length a) (length b)"
  by (simp add: xor_bytes_def)

lemma xor_bytes_cancel: "length a = length b \<Longrightarrow> xor_bytes (xor_bytes a b) b = a"
proof (induction a b rule: list_induct2)
  case Nil
  then show ?case by (simp add: xor_bytes_def)
next
  case (Cons x xs y ys)
  then show ?case by (simp add: xor_bytes_def xor.assoc)
qed

lemma length_remainder: "length (remainder bs) = length bs mod 16"
  by (simp add: remainder_def minus_mult_div_eq_mod)

lemma length_pkcs7_pad: "length rest < 16 \<Longrightarrow> length (pkcs7_pad rest) = 16"
  by (simp add: pkcs7_pad_def)

lemma length_blocks_elem: "b \<in> set (blocks bs) \<Longrightarrow> length b = 16"
proof -
  assume "b \<in> set (blocks bs)"
  then obtain i where i: "i < length bs div 16" and b: "b = take 16 (drop (16 * i) bs)"
    by (auto simp: blocks_def)
  from i have "16 * i + 16 \<le> length bs" by arith
  with b show ?thesis by simp
qed

lemma blocks_short: "length bs < 16 \<Longrightarrow> blocks bs = []"
  by (simp add: blocks_def)

lemma blocks_single: "length x = 16 \<Longrightarrow> blocks x = [x]"
  by (simp add: blocks_def)

lemma remainder_short: "length bs < 16 \<Longrightarrow> remainder bs = bs"
  by (simp add: remainder_def)

lemma length_cbc_encrypt_elem:
  "block_cipher c \<Longrightarrow> length prev = 16 \<Longrightarrow> (\<And>b. b \<in> set bs \<Longrightarrow> length b = 16) \<Longrightarrow>
   x \<in> set (cbc_encrypt c prev bs) \<Longrightarrow> length x = 16"
proof (induction bs arbitrary: prev)
  case Nil
  then show ?case by simp
next
  case (Cons b bs)
  have lb: "length b = 16" using Cons.prems(3) by simp
  have lx: "length (xor_bytes b prev) = 16"
    using lb Cons.prems(2) by (simp add: length_xor_bytes)
  have le: "length (enc_block c (xor_bytes b prev)) = 16"
    using Cons.prems(1) lx by (simp add: block_cipher_def)
  show ?case
  proof (cases "x = enc_block c (xor_bytes b prev)")
    case True
    then show ?thesis using le by simp
  next
    case False
    then have "x \<in> set (cbc_encrypt c (enc_block c (xor_bytes b prev)) bs)"
      using Cons.prems(4) by (simp add: Let_def)
    then show ?thesis
      using Cons.IH [OF Cons.prems(1) le] Cons.prems(3) by simp
  qed
qed

lemma length_cipher_final:
  assumes "block_cipher c" and "length iv = 16"
  shows "length (cipher_final c iv text) = 16"
proof -
  let ?cs = "cbc_encrypt c iv (blocks text)"
  let ?prev = "if ?cs = [] then iv else last ?cs"
  have lp: "length ?prev = 16"
  proof (cases "?cs = []")
    case True
    then show ?thesis using assms(2) by simp
  next
    case False
    then have "last ?cs \<in> set ?cs" by simp
    then have "length (last ?cs) = 16"
      using length_cbc_encrypt_elem [OF assms, of "blocks text"] length_blocks_elem by blast
    then show ?thesis using False by simp
  qed
  have "length (remainder text) < 16" by (simp add: length_remainder)
  then have "length (pkcs7_pad (remainder text)) = 16" by (rule length_pkcs7_pad)
  then have "length (xor_bytes (pkcs7_pad (remainder text)) ?prev) = 16"
    using lp by (simp add: length_xor_bytes)
  then have "length (enc_block c (xor_bytes (pkcs7_pad (remainder text)) ?prev)) = 16"
    using assms(1) by (simp add: block_cipher_def)
  then show ?thesis by (simp add: cipher_final_def Let_def)
qed

lemma pkcs7_unpad_shorter: "pkcs7_unpad bs = Inr r \<Longrightarrow> length r < length bs"
  by (auto simp: pkcs7_unpad_def Let_def split: if_splits)

lemma pkcs7_unpad_pad: "length rest < 16 \<Longrightarrow> pkcs7_unpad (pkcs7_pad rest) = Inr rest"
proof -
  assume l: "length rest < 16"
  define n where "n = 16 - length rest"
  have n: "1 \<le> n" "n \<le> 16" "length rest + n = 16" using l by (simp_all add: n_def)
  have pad: "pkcs7_pad rest = rest @ replicate n (of_nat n)"
    by (simp only: pkcs7_pad_def n_def)
  have "unat (of_nat n :: byte) = n mod 2 ^ LENGTH(8)" by (rule unat_of_nat)
  then have u: "unat (of_nat n :: byte) = n" using n by simp
  have lst: "last (pkcs7_pad rest) = of_nat n"
    using n unfolding pad by simp
  have ne: "pkcs7_pad rest \<noteq> []" using n unfolding pad by simp
  have len: "length (pkcs7_pad rest) - n = length rest" using n unfolding pad by simp
  have dr: "drop (length (pkcs7_pad rest) - n) (pkcs7_pad rest) = replicate n (of_nat n)"
    unfolding len unfolding pad by simp
  have tk: "take (length (pkcs7_pad rest) - n) (pkcs7_pad rest) = rest"
    unfolding len unfolding pad by simp
  have le: "n \<le> length (pkcs7_pad rest)" unfolding pad by simp
  show ?thesis
    unfolding pkcs7_unpad_def Let_def lst u using ne n le dr tk by simp
qed

lemma decipher_all_one_block:
  "length x = 16 \<Longrightarrow> decipher_all c iv x = pkcs7_unpad (xor_bytes (dec_block c x) iv)"
  by (auto simp: decipher_all_def blocks_single)

lemma decrypt_encrypt_short:
  assumes "block_cipher c" and "length iv = 16" and "length text < 16"
  shows "decrypt c (encrypt c iv text) = Inr text"
proof -
  let ?p = "xor_bytes (pkcs7_pad text) iv"
  have lp: "length (pkcs7_pad text) = 16" using assms(3) by (rule length_pkcs7_pad)
  have lx: "length ?p = 16" using lp assms(2) by (simp add: length_xor_bytes)
  have fin: "cipher_final c iv text = enc_block c ?p"
    using assms(3) by (simp add: cipher_final_def blocks_short remainder_short)
  have le: "length (enc_block c ?p) = 16" and de: "dec_block c (enc_block c ?p) = ?p"
    using assms(1) lx by (simp_all add: block_cipher_def)
  have "decrypt c (encrypt c iv text) = decipher_all c iv (enc_block c ?p)"
    using assms(2) by (simp add: decrypt_encrypt fin)
  also have "\<dots> = pkcs7_unpad (xor_bytes ?p iv)"
    using le by (simp add: decipher_all_one_block de)
  also have "xor_bytes ?p iv = pkcs7_pad text"
    using lp assms(2) by (simp add: xor_bytes_cancel)
  also have "pkcs7_unpad (pkcs7_pad text) = Inr text"
    using assms(3) by (rule pkcs7_unpad_pad)
  finally show ?thesis .
qed

lemma decrypt_encrypt_at_most_15:
  assumes "block_cipher c" and "length iv = 16" and "decrypt c (encrypt c iv text) = Inr r"
  shows "length r < 16"
proof -
  have l: "length (cipher_final c iv text) = 16"
    using assms(1,2) by (rule length_cipher_final)
  have "pkcs7_unpad (xor_bytes (dec_block c (cipher_final c iv text)) iv) = Inr r"
    using assms(2,3) l by (simp add: decrypt_encrypt decipher_all_one_block)
  then have "length r < length (xor_bytes (dec_block c (cipher_final c iv text)) iv)"
    by (rule pkcs7_unpad_shorter)
  also have "\<dots> \<le> 16" using assms(2) by (simp add: length_xor_bytes)
  finally show ?thesis .
qed


lemma update_entry_in_set: "(k, v) \<in> set (AList.update k v al)"
  by (induction al) auto

lemma addKey_result:
  "addKey c idBytes iv now io name prov apiKey mgr = (r, mgr1) \<Longrightarrow>
   map_of (keys mgr1) (to_hex idBytes) =
     Some \<lparr>key_id = to_hex idBytes, key_name = name, key_provider = prov,
            encryptedKey = encrypt c iv apiKey, createdAt = now, lastUsed = None\<rparr>
   \<and> (case r of Inl e \<Rightarrow> io = Some e
       | Inr k \<Rightarrow> io = None \<and> k = \<lparr>key_id = to_hex idBytes, key_name = name, key_provider = prov,
            encryptedKey = encrypt c iv apiKey, createdAt = now, lastUsed = None\<rparr>)"
  by (auto simp: addKey_def saveKeys_def Let_def update_conv' split: option.splits)

lemma block_cipher_toy: "block_cipher toy_cipher"
  by (simp add: block_cipher_def toy_cipher_def comp_def)

lemma addKey_long_example:
  "addKey toy_cipher id0 iv0 5 None ''work'' ''openai'' long_secret empty_store =
     (Inr \<lparr>key_id = ''abcd'', key_name = ''work'', key_provider = ''openai'',
           encryptedKey = ''000102030405060708090a0b0c0d0e0f:657c2125272927252f512f25277e7e7e'',
           createdAt = 5, lastUsed = None\<rparr>,
      \<lparr>keysFile = ''data/api-keys.json'',
        keys = [(''abcd'', \<lparr>key_id = ''abcd'', key_name = ''work'', key_provider = ''openai'',
           encryptedKey = ''000102030405060708090a0b0c0d0e0f:657c2125272927252f512f25277e7e7e'',
           createdAt = 5, lastUsed = None\<rparr>)]\<rparr>)"
  by code_simp

lemma getKey_long_example:
  "fst (getKey toy_cipher 6 None ''abcd''
          (snd (addKey toy_cipher id0 iv0 5 None ''work'' ''openai'' long_secret empty_store)))
     = Inl (Error ''bad decrypt'')"
  by code_simp

section \<open>Reading back a stored secret\<close>

text \<open>
  A secret shorter than one block comes back: \<open>update\<close> returns nothing for it, so
  the text \<open>encrypt\<close> builds holds the whole ciphertext.
\<close>

lemma getKey_after_addKey_short_secret:
  assumes "block_cipher c" and "length iv = 16" and "length apiKey < 16"
    and "addKey c idBytes iv now io name prov apiKey mgr = (Inr storedKey, mgr1)"
  shows "fst (getKey c now2 None (key_id storedKey) mgr1) = Inr (Some apiKey)"
proof -
  have k: "key_id storedKey = to_hex idBytes"
    and e: "encryptedKey storedKey = encrypt c iv apiKey"
    and m: "map_of (keys mgr1) (to_hex idBytes) = Some storedKey"
    using addKey_result [OF assms(4)] by simp_all
  have "decrypt c (encrypt c iv apiKey) = Inr apiKey"
    using assms(1,2,3) by (rule decrypt_encrypt_short)
  then show ?thesis
    by (simp add: getKey_def k e m saveKeys_def Let_def)
qed

text \<open>
  C1. The claim is that \<open>getKey\<close> on the id returned by \<open>addKey\<close> returns the
  plaintext that was added. The code does not do this for a secret of 16 bytes or more:
  \<open>encrypt\<close> keeps only the block returned by \<open>final\<close>, so \<open>decrypt\<close> can give
  back at most 15 bytes. For every block cipher, every 16-byte initialization vector and
  every plaintext of at least 16 bytes, whatever \<open>getKey\<close> returns for the id that
  \<open>addKey\<close> returned is not that plaintext.
\<close>

theorem getKey_after_addKey_long_secret:
  assumes "block_cipher c" and "length iv = 16" and "16 \<le> length apiKey"
    and "addKey c idBytes iv now io name prov apiKey mgr = (Inr storedKey, mgr1)"
  shows "fst (getKey c now2 io2 (key_id storedKey) mgr1) \<noteq> Inr (Some apiKey)"
proof -
  have k: "key_id storedKey = to_hex idBytes"
    and e: "encryptedKey storedKey = encrypt c iv apiKey"
    and m: "map_of (keys mgr1) (to_hex idBytes) = Some storedKey"
    using addKey_result [OF assms(4)] by simp_all
  show ?thesis
  proof (cases "decrypt c (encrypt c iv apiKey)")
    case (Inl err)
    then show ?thesis by (simp add: getKey_def k e m)
  next
    case (Inr r)
    have "length r < 16" using assms(1,2) Inr by (rule decrypt_encrypt_at_most_15)
    then have "r \<noteq> apiKey" using assms(3) by auto
    then show ?thesis
      by (simp add: getKey_def k e m Inr saveKeys_def Let_def split: option.splits)
  qed
qed

theorem getKey_after_addKey_long_secret_witness:
  "block_cipher toy_cipher \<and> length iv0 = 16 \<and> 16 \<le> length long_secret
   \<and> fst (addKey toy_cipher id0 iv0 5 None ''work'' ''openai'' long_secret empty_store)
        = Inr \<lparr>key_id = ''abcd'', key_name = ''work'', key_provider = ''openai'',
           encryptedKey = ''000102030405060708090a0b0c0d0e0f:657c2125272927252f512f25277e7e7e'',
           createdAt = 5, lastUsed = None\<rparr>
   \<and> fst (getKey toy_cipher 6 None ''abcd''
          (snd (addKey toy_cipher id0 iv0 5 None ''work'' ''openai'' long_secret empty_store)))
        = Inl (Error ''bad decrypt'')
   \<and> fst (getKey toy_cipher 6 None ''abcd''
          (snd (addKey toy_cipher id0 iv0 5 None ''work'' ''openai'' long_secret empty_store)))
        \<noteq> Inr (Some long_secret)"
proof -
  have h2: "length iv0 = 16" by (simp add: iv0_def)
  have h3: "16 \<le> length long_secret" by (simp add: long_secret_def)
  show ?thesis
    using block_cipher_toy h2 h3 getKey_long_example
      getKey_after_addKey_long_secret [OF block_cipher_toy h2 h3 addKey_long_example, of 6 None]
    by (simp add: addKey_long_example)
qed

section \<open>A disk write that fails\<close>

text \<open>
  C3, as the specification states it, fails: \<open>addKey\<close> on the empty store with a
  failing write throws the write's error, and the in-memory map holds the new record
  afterwards.
\<close>

theorem addKey_failed_write_counterexample:
  "getAllKeys empty_store = []
   \<and> addKey toy_cipher id0 iv0 5 (Some (Error ''ENOSPC'')) ''work'' ''openai'' short_secret
         empty_store
       = (Inl (Error ''ENOSPC''),
          \<lparr>keysFile = ''data/api-keys.json'',
            keys = [(''abcd'', \<lparr>key_id = ''abcd'', key_name = ''work'', key_provider = ''openai'',
              encryptedKey = ''000102030405060708090a0b0c0d0e0f:6264620f0a090c0b0605080702010403'',
              createdAt = 5, lastUsed = None\<rparr>)]\<rparr>)"
  by code_simp

text \<open>
  C3, amended. When the disk write of \<open>addKey\<close>, \<open>updateKey\<close> or \<open>deleteKey\<close>
  fails, the error is thrown to the caller and the in-memory map keeps the mutation: it
  is the map a successful write leaves. The added record is present, in whatever store
  it was added to; the updated one carries the new ciphertext and time; the deleted one
  is gone. (For \<open>updateKey\<close> and \<open>deleteKey\<close> the id is one the map holds; an unknown
  id throws before anything is written.)
\<close>

theorem failed_write_keeps_mutation:
  "fst (addKey c idBytes iv now (Some e) name prov apiKey mgr0) = Inl e
   \<and> snd (addKey c idBytes iv now (Some e) name prov apiKey mgr0)
       = snd (addKey c idBytes iv now None name prov apiKey mgr0)
   \<and> map_of (keys (snd (addKey c idBytes iv now (Some e) name prov apiKey mgr0)))
         (to_hex idBytes)
       = Some \<lparr>key_id = to_hex idBytes, key_name = name, key_provider = prov,
                encryptedKey = encrypt c iv apiKey, createdAt = now, lastUsed = None\<rparr>
   \<and> (map_of (keys mgr) ident = Some storedKey \<longrightarrow>
         fst (updateKey c iv later (Some e) ident apiKey mgr) = Inl e
         \<and> snd (updateKey c iv later (Some e) ident apiKey mgr)
             = snd (updateKey c iv later None ident apiKey mgr)
         \<and> map_of (keys (snd (updateKey c iv later (Some e) ident apiKey mgr))) ident
             = Some (storedKey\<lparr>encryptedKey := encrypt c iv apiKey, lastUsed := Some later\<rparr>)
         \<and> fst (deleteKey (Some e) ident mgr) = Inl e
         \<and> snd (deleteKey (Some e) ident mgr) = snd (deleteKey None ident mgr)
         \<and> map_of (keys (snd (deleteKey (Some e) ident mgr))) ident = None)"
  by (simp add: addKey_def updateKey_def deleteKey_def saveKeys_def Let_def
      update_conv' delete_conv')

theorem failed_write_keeps_mutation_witness:
  "map_of (keys empty_store) ''abcd'' = None
   \<and> fst (addKey toy_cipher id0 iv0 5 (Some (Error ''ENOSPC'')) ''work'' ''openai''
            short_secret empty_store) = Inl (Error ''ENOSPC'')
   \<and> map_of (keys (snd (addKey toy_cipher id0 iv0 5 (Some (Error ''ENOSPC'')) ''work''
                           ''openai'' short_secret empty_store))) ''abcd''
       = Some \<lparr>key_id = ''abcd'', key_name = ''work'', key_provider = ''openai'',
            encryptedKey = ''000102030405060708090a0b0c0d0e0f:6264620f0a090c0b0605080702010403'',
            createdAt = 5, lastUsed = None\<rparr>
   \<and> map_of (keys one_key_store) ''abcd'' =
     Some \<lparr>key_id = ''abcd'', key_name = ''work'', key_provider = ''openai'',
            encryptedKey = ''000102030405060708090a0b0c0d0e0f:6264620f0a090c0b0605080702010403'',
            createdAt = 5, lastUsed = None\<rparr>
   \<and> fst (updateKey toy_cipher iv0 9 (Some (Error ''ENOSPC'')) ''abcd'' short_secret
            one_key_store) = Inl (Error ''ENOSPC'')
   \<and> map_of (keys (snd (updateKey toy_cipher iv0 9 (Some (Error ''ENOSPC'')) ''abcd''
                           short_secret one_key_store))) ''abcd''
       = Some \<lparr>key_id = ''abcd'', key_name = ''work'', key_provider = ''openai'',
            encryptedKey = ''000102030405060708090a0b0c0d0e0f:6264620f0a090c0b0605080702010403'',
            createdAt = 5, lastUsed = Some 9\<rparr>
   \<and> fst (deleteKey (Some (Error ''ENOSPC'')) ''abcd'' one_key_store) = Inl (Error ''ENOSPC'')
   \<and> map_of (keys (snd (deleteKey (Some (Error ''ENOSPC'')) ''abcd'' one_key_store))) ''abcd''
       = None"
proof -
  have h0: "map_of (keys empty_store) ''abcd'' = None"
    by (simp add: empty_store_def new_ApiKeyManager_def)
  have h: "map_of (keys one_key_store) ''abcd'' =
     Some \<lparr>key_id = ''abcd'', key_name = ''work'', key_provider = ''openai'',
            encryptedKey = ''000102030405060708090a0b0c0d0e0f:6264620f0a090c0b0605080702010403'',
            createdAt = 5, lastUsed = None\<rparr>"
    unfolding one_key_store_def by code_simp
  have i: "to_hex id0 = ''abcd''" by code_simp
  have x: "encrypt toy_cipher iv0 short_secret
             = ''000102030405060708090a0b0c0d0e0f:6264620f0a090c0b0605080702010403''"
    by code_simp
  have u: "\<lparr>key_id = ''abcd'', key_name = ''work'', key_provider = ''openai'',
          encryptedKey = ''000102030405060708090a0b0c0d0e0f:6264620f0a090c0b0605080702010403'',
          createdAt = 5, lastUsed = None\<rparr>
        \<lparr>encryptedKey := ''000102030405060708090a0b0c0d0e0f:6264620f0a090c0b0605080702010403'',
         lastUsed := Some 9\<rparr>
      = \<lparr>key_id = ''abcd'', key_name = ''work'', key_provider = ''openai'',
          encryptedKey = ''000102030405060708090a0b0c0d0e0f:6264620f0a090c0b0605080702010403'',
          createdAt = 5, lastUsed = Some 9\<rparr>"
    by simp
  show ?thesis
    using h0 h
      failed_write_keeps_mutation [of toy_cipher id0 iv0 5 "Error ''ENOSPC''" "''work''"
        "''openai''" short_secret empty_store one_key_store "''abcd''"
        "\<lparr>key_id = ''abcd'', key_name = ''work'', key_provider = ''openai'',
          encryptedKey = ''000102030405060708090a0b0c0d0e0f:6264620f0a090c0b0605080702010403'',
          createdAt = 5, lastUsed = None\<rparr>" 9, unfolded i x u]
    by blast
qed

section \<open>What the listing returns\<close>

text \<open>
  C4, as the specification states it, fails: after a secret is added, the record that
  \<open>getAllKeys\<close> returns for it has the field \<open>encryptedKey\<close>, holding the
  initialization vector and the ciphertext.
\<close>

theorem getAllKeys_ciphertext_counterexample:
  "map encryptedKey
     (getAllKeys (snd (addKey toy_cipher id0 iv0 5 None ''work'' ''openai'' short_secret
                         empty_store)))
     = [''000102030405060708090a0b0c0d0e0f:6264620f0a090c0b0605080702010403'']"
  by code_simp

text \<open>
  C4, amended. For every state of the store, \<open>getAllKeys\<close> returns the stored records
  themselves, one per entry of the in-memory map: each carries id, name, provider, the two
  times and also \<open>encryptedKey\<close>, the text \<open><iv-hex>:<ciphertext-hex>\<close>. The record
  type has no field for the plaintext. After \<open>addKey\<close> the listing holds the record the
  call built, ciphertext included.
\<close>

theorem getAllKeys_lists_stored_records:
  "set (getAllKeys mgr) = snd ` set (keys mgr)
   \<and> length (getAllKeys mgr) = length (keys mgr)
   \<and> \<lparr>key_id = to_hex idBytes, key_name = name, key_provider = prov,
       encryptedKey = to_hex iv @ '':'' @ to_hex (cipher_final c iv apiKey),
       createdAt = now, lastUsed = None\<rparr>
       \<in> set (getAllKeys (snd (addKey c idBytes iv now io name prov apiKey mgr)))"
proof -
  let ?k = "\<lparr>key_id = to_hex idBytes, key_name = name, key_provider = prov,
       encryptedKey = to_hex iv @ '':'' @ to_hex (cipher_final c iv apiKey),
       createdAt = now, lastUsed = None\<rparr>"
  have "(to_hex idBytes, ?k) \<in> set (AList.update (to_hex idBytes) ?k (keys mgr))"
    by (rule update_entry_in_set)
  then have "?k \<in> snd ` set (AList.update (to_hex idBytes) ?k (keys mgr))"
    by force
  then show ?thesis
    by (simp add: getAllKeys_def addKey_def encrypt_def saveKeys_def Let_def
        split: option.splits)
qed

section \<open>What a turn appends to its conversation\<close>

lemma conversations_push_message [simp]:
  "conversations (push_message r m self) = conversations self"
  by (simp add: push_message_def)

lemma config_push_message [simp]: "config (push_message r m self) = config self"
  by (simp add: push_message_def)

lemma heap_push_message:
  "heap (push_message r m self) q =
     (if q = r then (heap self r)\<lparr>messages := messages (heap self r) @ [m]\<rparr> else heap self q)"
  by (simp add: push_message_def)

lemma push_tool_messages_fold:
  "fold (\<lambda>x s. push_message r (g x) s) xs self =
     self\<lparr>heap := (heap self)(r := (heap self r)\<lparr>messages := messages (heap self r) @ map g xs\<rparr>)\<rparr>"
proof (induction xs arbitrary: self)
  case Nil
  then show ?case by simp
next
  case (Cons x xs)
  have "fold (\<lambda>x s. push_message r (g x) s) (x # xs) self
          = fold (\<lambda>x s. push_message r (g x) s) xs (push_message r (g x) self)"
    by simp
  also have "\<dots> = (push_message r (g x) self)\<lparr>heap := (heap (push_message r (g x) self))
                (r := (heap (push_message r (g x) self) r)
                   \<lparr>messages := messages (heap (push_message r (g x) self) r) @ map g xs\<rparr>)\<rparr>"
    by (rule Cons.IH)
  also have "\<dots> = self\<lparr>heap := (heap self)
                (r := (heap self r)\<lparr>messages := messages (heap self r) @ map g (x # xs)\<rparr>)\<rparr>"
    unfolding push_message_def by simp
  finally show ?case .
qed

lemma push_tool_messages_eq:
  "push_tool_messages r rs now self =
     self\<lparr>heap := (heap self)(r := (heap self r)\<lparr>messages := messages (heap self r)
               @ map (\<lambda>p. toolMsg (snd p) (now (fst p))) (enumerate 0 rs)\<rparr>)\<rparr>"
  unfolding push_tool_messages_def by (rule push_tool_messages_fold)

lemma conversations_push_tool_messages [simp]:
  "conversations (push_tool_messages r rs now self) = conversations self"
  by (simp add: push_tool_messages_eq)

lemma config_push_tool_messages [simp]:
  "config (push_tool_messages r rs now self) = config self"
  by (simp add: push_tool_messages_eq)

lemma getConversation_ref:
  "getConversation self conversationId = Some context \<longleftrightarrow>
     (\<exists>r. map_of (conversations self) conversationId = Some r \<and> heap self r = context)"
  by (auto simp: getConversation_def)

text \<open>The loop of \<open>executeToolCalls\<close>, turn by turn.\<close>

lemma executeToolCalls_fold:
  "fold (\<lambda>toolCall (responses, w1).
           (case tool_call_response rt pm toolCall w1 of
              (response, w2) \<Rightarrow> (responses @ [response], w2)))
     toolCalls (acc, w)
   = (acc @ fst (executeToolCalls rt pm toolCalls w), snd (executeToolCalls rt pm toolCalls w))"
proof (induction toolCalls arbitrary: acc w)
  case Nil
  then show ?case by (simp add: executeToolCalls_def)
next
  case (Cons tc tcs)
  obtain response w2 where t: "tool_call_response rt pm tc w = (response, w2)"
    by (cases "tool_call_response rt pm tc w")
  show ?case
    unfolding executeToolCalls_def
    by (simp add: t Cons.IH [of "acc @ [response]" w2] Cons.IH [of "[response]" w2])
qed

lemma executeToolCalls_Nil: "executeToolCalls rt pm [] w = ([], w)"
  by (simp add: executeToolCalls_def)

lemma executeToolCalls_Cons:
  "executeToolCalls rt pm (tc # tcs) w =
     (fst (tool_call_response rt pm tc w)
        # fst (executeToolCalls rt pm tcs (snd (tool_call_response rt pm tc w))),
      snd (executeToolCalls rt pm tcs (snd (tool_call_response rt pm tc w))))"
proof -
  obtain response w2 where t: "tool_call_response rt pm tc w = (response, w2)"
    by (cases "tool_call_response rt pm tc w")
  have "executeToolCalls rt pm (tc # tcs) w
          = fold (\<lambda>toolCall (responses, w1).
                    (case tool_call_response rt pm toolCall w1 of
                       (response, w2) \<Rightarrow> (responses @ [response], w2)))
              tcs ([response], w2)"
    by (simp add: executeToolCalls_def t)
  then show ?thesis
    by (simp add: executeToolCalls_fold t)
qed

lemma toolCallId_tool_call_response:
  "toolCallId (fst (tool_call_response rt pm toolCall w)) = call_id toolCall"
  by (simp add: tool_call_response_def Let_def split: sum.splits prod.splits)

lemma toolCallIds_executeToolCalls:
  "map toolCallId (fst (executeToolCalls rt pm toolCalls w)) = map call_id toolCalls"
  by (induction toolCalls arbitrary: w)
    (simp_all add: executeToolCalls_Nil executeToolCalls_Cons toolCallId_tool_call_response)

lemma length_executeToolCalls:
  "length (fst (executeToolCalls rt pm toolCalls w)) = length toolCalls"
  using toolCallIds_executeToolCalls [of rt pm toolCalls w, THEN arg_cong, of length] by simp

text \<open>One turn, down to the executor of the tool.\<close>

lemma tool_call_response_unfolded:
  "tool_call_response rt pm toolCall w =
     (case JSON_parse rt (arguments (call_function toolCall)) of
        Inl err \<Rightarrow>
          (\<lparr>toolCallId = call_id toolCall,
            tr_content = JSON_stringify rt
              (JObj [(''error'', JStr (case err of Error m \<Rightarrow> m | Thrown t \<Rightarrow> t))]),
            tr_error = Some (case err of Error m \<Rightarrow> m | Thrown t \<Rightarrow> t)\<rparr>, w)
      | Inr params \<Rightarrow>
          (case map_of (tools pm) (fn_name (call_function toolCall)) of
             None \<Rightarrow>
               (\<lparr>toolCallId = call_id toolCall,
                 tr_content = JSON_stringify rt
                   (JObj [(''error'',
                           JStr (''Tool not found: '' @ fn_name (call_function toolCall)))]),
                 tr_error = Some (''Tool not found: '' @ fn_name (call_function toolCall))\<rparr>, w)
           | Some tool \<Rightarrow>
               (case execute tool params w of
                  (Inl err, w') \<Rightarrow>
                    (\<lparr>toolCallId = call_id toolCall,
                      tr_content = JSON_stringify rt
                        (JObj [(''error'', JStr (case err of Error m \<Rightarrow> m | Thrown t \<Rightarrow> t))]),
                      tr_error = Some (case err of Error m \<Rightarrow> m | Thrown t \<Rightarrow> t)\<rparr>, w')
                | (Inr result, w') \<Rightarrow>
                    (\<lparr>toolCallId = call_id toolCall,
                      tr_content = JSON_stringify rt
                        (JObj [(''success'', JBool (success result)),
                               (''data'', data result),
                               (''error'', (case error result of
                                              None \<Rightarrow> JUndefined
                                            | Some e \<Rightarrow> JStr e)),
                               (''metadata'', metadata result),
                               (''executionTime'',
                                JNum (elapsed rt (fn_name (call_function toolCall)) params))]),
                      tr_error = None\<rparr>, w'))))"
  by (simp add: tool_call_response_def executeTool_def json_of_output_def errorMessage_def
      Let_def ToolResult.extend_def ToolOutput.fields_def
      split: sum.splits option.splits prod.splits)


lemma getConversation_a: "getConversation two_conversations ''a'' = Some context_a"
  by (simp add: getConversation_def two_conversations_def createConversation_def
      new_AIAssistant_def context_a_def Let_def)

lemma config_two_conversations: "config two_conversations = cfg0"
  by (simp add: two_conversations_def createConversation_def new_AIAssistant_def Let_def)

text \<open>
  C8. For an existing conversation, when the provider's first reply has a choice and
  requests no tool call (\<open>tool_calls\<close> absent or empty), \<open>sendMessage\<close> completes
  and runs no tool, so the world is as before. The reply it returns is the content of
  that first assistant message (the empty text when the content is \<open>null\<close>). The
  conversation's context afterwards is the earlier one with exactly two messages
  appended: a message of role \<open>user\<close> holding the text and the metadata that were
  sent, stamped with the first reading of the clock, and then a message of role
  \<open>assistant\<close> holding the content of the reply, stamped with the second reading. The
  number of messages grows by exactly 2.
\<close>

theorem sendMessage_without_tool_calls:
  assumes "getConversation self conversationId = Some context"
    and "openai (first_request (config self)
                  (context\<lparr>messages := messages context
                     @ [\<lparr>role = User, content = body, timestamp = Some (now 0),
                         msg_metadata = md\<rparr>]\<rparr>))
           = Inr response"
    and "choices response = assistantMessage # others"
    and "tool_calls assistantMessage = None \<or> tool_calls assistantMessage = Some []"
  shows "\<exists>self' context'.
           sendMessage rt pm openai now conversationId body md self w
             = (Inr \<lparr>sr_response = (case cm_content assistantMessage of
                                       None \<Rightarrow> [] | Some reply \<Rightarrow> reply),
                     sr_toolCalls = tool_calls assistantMessage\<rparr>, self', w)
           \<and> getConversation self' conversationId = Some context'
           \<and> context' = context\<lparr>messages := messages context
                @ [\<lparr>role = User, content = body, timestamp = Some (now 0),
                    msg_metadata = md\<rparr>,
                   \<lparr>role = Assistant,
                    content = (case cm_content assistantMessage of
                                 None \<Rightarrow> [] | Some reply \<Rightarrow> reply),
                    timestamp = Some (now 1), msg_metadata = JUndefined\<rparr>]\<rparr>
           \<and> length (messages context') = length (messages context) + 2"
proof -
  obtain r where r: "map_of (conversations self) conversationId = Some r"
    and h: "heap self r = context"
    using assms(1) by (auto simp: getConversation_ref)
  let ?u = "\<lparr>role = User, content = body, timestamp = Some (now 0), msg_metadata = md\<rparr>"
  let ?a = "\<lparr>role = Assistant,
             content = (case cm_content assistantMessage of None \<Rightarrow> [] | Some reply \<Rightarrow> reply),
             timestamp = Some (now 1), msg_metadata = JUndefined\<rparr>"
  have u: "userMessage body md (now 0) = ?u" by (simp add: userMessage_def)
  have a: "assistantMsg assistantMessage (now 1) = ?a"
    by (simp add: assistantMsg_def or_empty_def)
  let ?self1 = "push_message r ?u self"
  let ?self2 = "push_message r ?a ?self1"
  have h1: "heap ?self1 r = context\<lparr>messages := messages context @ [?u]\<rparr>"
    by (simp add: heap_push_message h)
  have req: "openai (first_request (config self) (heap ?self1 r)) = Inr response"
    using assms(2) by (simp add: h1)
  have res: "sendMessage rt pm openai now conversationId body md self w
               = (Inr \<lparr>sr_response = (case cm_content assistantMessage of
                                         None \<Rightarrow> [] | Some reply \<Rightarrow> reply),
                       sr_toolCalls = tool_calls assistantMessage\<rparr>, ?self2, w)"
    using assms(4) unfolding sendMessage_def Let_def
    by (auto simp: r req assms(3) or_empty_def userMessage_def assistantMsg_def)
  have m2: "heap ?self2 r = context\<lparr>messages := messages context @ [?u, ?a]\<rparr>"
    by (simp add: heap_push_message h)
  have g2: "getConversation ?self2 conversationId = Some (heap ?self2 r)"
    by (simp add: getConversation_def r)
  show ?thesis
    using res g2 m2 by (intro exI [of _ ?self2] exI [of _ "heap ?self2 r"]) simp
qed

theorem sendMessage_without_tool_calls_witness:
  "getConversation two_conversations ''a'' = Some context_a
   \<and> echo_openai (first_request (config two_conversations)
         (context_a\<lparr>messages := messages context_a
            @ [\<lparr>role = User, content = ''hello'', timestamp = Some 7,
                msg_metadata = JUndefined\<rparr>]\<rparr>))
       = Inr \<lparr>choices = [echo_hello]\<rparr>
   \<and> tool_calls echo_hello = None
   \<and> fst (sendMessage rt0 clock_registry echo_openai (\<lambda>k. 7 + k) ''a'' ''hello'' JUndefined
            two_conversations [])
       = Inr \<lparr>sr_response = ''echo: hello'', sr_toolCalls = None\<rparr>
   \<and> getConversation
         (fst (snd (sendMessage rt0 clock_registry echo_openai (\<lambda>k. 7 + k) ''a'' ''hello''
                      JUndefined two_conversations []))) ''a''
       = Some (context_a\<lparr>messages := messages context_a
            @ [\<lparr>role = User, content = ''hello'', timestamp = Some 7,
                msg_metadata = JUndefined\<rparr>,
               \<lparr>role = Assistant, content = ''echo: hello'', timestamp = Some 8,
                msg_metadata = JUndefined\<rparr>]\<rparr>)
   \<and> snd (snd (sendMessage rt0 clock_registry echo_openai (\<lambda>k. 7 + k) ''a'' ''hello''
                  JUndefined two_conversations [])) = []"
proof -
  have h2: "echo_openai (first_request (config two_conversations)
         (context_a\<lparr>messages := messages context_a
            @ [\<lparr>role = User, content = ''hello'', timestamp = Some 7,
                msg_metadata = JUndefined\<rparr>]\<rparr>))
       = Inr \<lparr>choices = [echo_hello]\<rparr>"
    by (simp add: echo_openai_def first_request_def context_a_def api_message_def
        echo_hello_def)
  have h2': "echo_openai (first_request (config two_conversations)
         (context_a\<lparr>messages := messages context_a
            @ [\<lparr>role = User, content = ''hello'', timestamp = Some (7 + 0),
                msg_metadata = JUndefined\<rparr>]\<rparr>))
       = Inr \<lparr>choices = [echo_hello]\<rparr>"
    using h2 by simp
  have h3: "choices \<lparr>choices = [echo_hello]\<rparr> = echo_hello # []" by simp
  have t: "tool_calls echo_hello = None" by (simp add: echo_hello_def)
  have h4: "tool_calls echo_hello = None \<or> tool_calls echo_hello = Some []"
    using t by simp
  have c: "cm_content echo_hello = Some ''echo: hello''" by (simp add: echo_hello_def)
  obtain self' context' where
    "sendMessage rt0 clock_registry echo_openai (\<lambda>k. 7 + k) ''a'' ''hello'' JUndefined
       two_conversations []
     = (Inr \<lparr>sr_response = (case cm_content echo_hello of None \<Rightarrow> [] | Some reply \<Rightarrow> reply),
             sr_toolCalls = tool_calls echo_hello\<rparr>, self', [])"
    and "getConversation self' ''a'' = Some context'"
    and "context' = context_a\<lparr>messages := messages context_a
            @ [\<lparr>role = User, content = ''hello'', timestamp = Some (7 + 0),
                msg_metadata = JUndefined\<rparr>,
               \<lparr>role = Assistant,
                content = (case cm_content echo_hello of None \<Rightarrow> [] | Some reply \<Rightarrow> reply),
                timestamp = Some (7 + 1), msg_metadata = JUndefined\<rparr>]\<rparr>"
    using sendMessage_without_tool_calls [where openai = echo_openai and rt = rt0
          and pm = clock_registry and now = "\<lambda>k. 7 + k" and w = "[]",
          OF getConversation_a h2' h3 h4]
    by blast
  then show ?thesis
    using getConversation_a h2 by (simp add: c t)
qed

text \<open>
  C6. When the first assistant reply requests the tool calls \<open>toolCalls\<close> (not
  empty) and the turn completes, the conversation's context afterwards is the earlier one
  followed by: the user message; the first assistant message; one message of role
  \<open>tool\<close> for each response of \<open>executeToolCalls\<close>, in the order of the responses,
  holding the content of the response, its own reading of the clock, and as metadata the
  \<open>toolCallId\<close> and the \<open>error\<close> of the response; and last the final assistant
  message, whose content is the reply returned. The responses carry the ids of the
  requested calls, in the order of the array, and the world after the turn is the one
  \<open>executeToolCalls\<close> leaves.

  \<open>executeToolCalls\<close> runs the calls one after the other in the order of the array:
  it does nothing on the empty list, and on a list it runs the first call in the world as
  it is and the rest in the world the first call left. The response of one call: when
  \<open>JSON.parse\<close> of the arguments throws, no tool runs and the response carries the
  message of the error; when no tool is registered under the name, the response carries
  \<open>Tool not found\<close> and the name; otherwise the executor of that tool runs on the
  parsed parameters, what it throws becomes an error response, and what it returns is
  serialised together with the execution time.
\<close>

theorem sendMessage_tool_calls_in_order:
  assumes "getConversation self conversationId = Some context"
    and "openai (first_request (config self)
                  (context\<lparr>messages := messages context
                     @ [\<lparr>role = User, content = body, timestamp = Some (now 0),
                         msg_metadata = md\<rparr>]\<rparr>))
           = Inr response"
    and "choices response = assistantMessage # others"
    and "tool_calls assistantMessage = Some toolCalls"
    and "toolCalls \<noteq> []"
    and "sendMessage rt pm openai now conversationId body md self w = (Inr result, self', w')"
  shows "getConversation self' conversationId
           = Some (context\<lparr>messages := messages context
                @ [\<lparr>role = User, content = body, timestamp = Some (now 0),
                    msg_metadata = md\<rparr>,
                   \<lparr>role = Assistant,
                    content = (case cm_content assistantMessage of
                                 None \<Rightarrow> [] | Some reply \<Rightarrow> reply),
                    timestamp = Some (now 1), msg_metadata = JUndefined\<rparr>]
                @ map (\<lambda>p. \<lparr>role = ToolRole, content = tr_content (snd p),
                             timestamp = Some (now (2 + fst p)),
                             msg_metadata =
                               JObj [(''toolCallId'', JStr (toolCallId (snd p))),
                                     (''error'', (case tr_error (snd p) of
                                                    None \<Rightarrow> JUndefined
                                                  | Some e \<Rightarrow> JStr e))]\<rparr>)
                    (enumerate 0 (fst (executeToolCalls rt pm toolCalls w)))
                @ [\<lparr>role = Assistant, content = sr_response result,
                    timestamp = Some (now (2 + length toolCalls)),
                    msg_metadata = JUndefined\<rparr>]\<rparr>)
         \<and> w' = snd (executeToolCalls rt pm toolCalls w)
         \<and> map toolCallId (fst (executeToolCalls rt pm toolCalls w)) = map call_id toolCalls
         \<and> executeToolCalls rt pm [] v = ([], v)
         \<and> executeToolCalls rt pm (tc # tcs) v =
             (fst (tool_call_response rt pm tc v)
                # fst (executeToolCalls rt pm tcs (snd (tool_call_response rt pm tc v))),
              snd (executeToolCalls rt pm tcs (snd (tool_call_response rt pm tc v))))
         \<and> tool_call_response rt pm tc v =
             (case JSON_parse rt (arguments (call_function tc)) of
                Inl err \<Rightarrow>
                  (\<lparr>toolCallId = call_id tc,
                    tr_content = JSON_stringify rt
                      (JObj [(''error'', JStr (case err of Error m \<Rightarrow> m | Thrown t \<Rightarrow> t))]),
                    tr_error = Some (case err of Error m \<Rightarrow> m | Thrown t \<Rightarrow> t)\<rparr>, v)
              | Inr params \<Rightarrow>
                  (case map_of (tools pm) (fn_name (call_function tc)) of
                     None \<Rightarrow>
                       (\<lparr>toolCallId = call_id tc,
                         tr_content = JSON_stringify rt
                           (JObj [(''error'',
                                   JStr (''Tool not found: '' @ fn_name (call_function tc)))]),
                         tr_error = Some (''Tool not found: '' @ fn_name (call_function tc))\<rparr>,
                        v)
                   | Some tool \<Rightarrow>
                       (case execute tool params v of
                          (Inl err, v') \<Rightarrow>
                            (\<lparr>toolCallId = call_id tc,
                              tr_content = JSON_stringify rt
                                (JObj [(''error'',
                                        JStr (case err of Error m \<Rightarrow> m | Thrown t \<Rightarrow> t))]),
                              tr_error = Some (case err of Error m \<Rightarrow> m | Thrown t \<Rightarrow> t)\<rparr>,
                             v')
                        | (Inr res, v') \<Rightarrow>
                            (\<lparr>toolCallId = call_id tc,
                              tr_content = JSON_stringify rt
                                (JObj [(''success'', JBool (success res)),
                                       (''data'', data res),
                                       (''error'', (case error res of
                                                      None \<Rightarrow> JUndefined
                                                    | Some e \<Rightarrow> JStr e)),
                                       (''metadata'', metadata res),
                                       (''executionTime'',
                                        JNum (elapsed rt (fn_name (call_function tc)) params))]),
                              tr_error = None\<rparr>, v'))))"
proof -
  obtain r where r: "map_of (conversations self) conversationId = Some r"
    and h: "heap self r = context"
    using assms(1) by (auto simp: getConversation_ref)
  obtain c cs where tcs: "toolCalls = c # cs"
    using assms(5) by (cases toolCalls) auto
  let ?u = "\<lparr>role = User, content = body, timestamp = Some (now 0), msg_metadata = md\<rparr>"
  let ?a = "\<lparr>role = Assistant,
             content = (case cm_content assistantMessage of None \<Rightarrow> [] | Some reply \<Rightarrow> reply),
             timestamp = Some (now 1), msg_metadata = JUndefined\<rparr>"
  let ?t = "\<lambda>p. \<lparr>role = ToolRole, content = tr_content (snd p),
                  timestamp = Some (now (2 + fst p)),
                  msg_metadata =
                    JObj [(''toolCallId'', JStr (toolCallId (snd p))),
                          (''error'', (case tr_error (snd p) of
                                         None \<Rightarrow> JUndefined
                                       | Some e \<Rightarrow> JStr e))]\<rparr>"
  have u: "userMessage body md (now 0) = ?u" by (simp add: userMessage_def)
  have a: "assistantMsg assistantMessage (now 1) = ?a"
    by (simp add: assistantMsg_def or_empty_def)
  have t: "(\<lambda>p. toolMsg (snd p) (now (2 + fst p))) = ?t"
    by (simp add: toolMsg_def fun_eq_iff)
  obtain toolResponses w1 where e: "executeToolCalls rt pm toolCalls w = (toolResponses, w1)"
    by (cases "executeToolCalls rt pm toolCalls w")
  have len: "length toolResponses = length toolCalls"
    using length_executeToolCalls [of rt pm toolCalls w] e by simp
  let ?self1 = "push_message r ?u self"
  let ?self2 = "push_message r ?a ?self1"
  let ?self3 = "push_tool_messages r toolResponses (\<lambda>i. now (2 + i)) ?self2"
  have h1: "heap ?self1 r = context\<lparr>messages := messages context @ [?u]\<rparr>"
    by (simp add: heap_push_message h)
  have req: "openai (first_request (config self) (heap ?self1 r)) = Inr response"
    using assms(2) by (simp add: h1)
  have m3: "heap ?self3 r = context\<lparr>messages := messages context @ [?u, ?a]
              @ map ?t (enumerate 0 toolResponses)\<rparr>"
    by (simp add: push_tool_messages_eq heap_push_message h toolMsg_def)
  let ?raw3 = "push_tool_messages r toolResponses (\<lambda>i. now (2 + i))
                (push_message r (assistantMsg assistantMessage (now 1))
                   (push_message r (userMessage body md (now 0)) self))"
  have req0: "openai (first_request (config self)
                (heap (push_message r (userMessage body md (now 0)) self) r)) = Inr response"
    using req unfolding u .
  have raw: "sendMessage rt pm openai now conversationId body md self w =
      (case openai (followup_request (config ?raw3) (heap ?raw3 r)) of
         Inl err \<Rightarrow> (Inl err, ?raw3, w1)
       | Inr followUpResponse \<Rightarrow>
           (case choices followUpResponse of
              [] \<Rightarrow> (Inl no_choice, ?raw3, w1)
            | followUpMessage # _ \<Rightarrow>
                (Inr \<lparr>sr_response = or_empty (cm_content followUpMessage),
                      sr_toolCalls = None\<rparr>,
                 push_message r (assistantMsg followUpMessage (now (2 + length toolResponses)))
                   ?raw3,
                 w1)))"
    unfolding sendMessage_def Let_def tcs
    by (simp add: r req0 assms(3) assms(4) [unfolded tcs] e [unfolded tcs]
        del: One_nat_def add_2_eq_Suc add_2_eq_Suc')
  have unfolded: "sendMessage rt pm openai now conversationId body md self w =
      (case openai (followup_request (config ?self3) (heap ?self3 r)) of
         Inl err \<Rightarrow> (Inl err, ?self3, w1)
       | Inr followUpResponse \<Rightarrow>
           (case choices followUpResponse of
              [] \<Rightarrow> (Inl no_choice, ?self3, w1)
            | followUpMessage # _ \<Rightarrow>
                (Inr \<lparr>sr_response = or_empty (cm_content followUpMessage),
                      sr_toolCalls = None\<rparr>,
                 push_message r (assistantMsg followUpMessage (now (2 + length toolResponses)))
                   ?self3,
                 w1)))"
    using raw unfolding u a .
  obtain followUpMessage where res: "result = \<lparr>sr_response = or_empty (cm_content followUpMessage),
                                               sr_toolCalls = None\<rparr>"
    and s': "self' = push_message r
                       (assistantMsg followUpMessage (now (2 + length toolResponses))) ?self3"
    and w': "w' = w1"
    using assms(6) unfolding unfolded by (auto split: sum.splits list.splits)
  have f: "assistantMsg followUpMessage (now (2 + length toolResponses))
             = \<lparr>role = Assistant, content = sr_response result,
                 timestamp = Some (now (2 + length toolCalls)), msg_metadata = JUndefined\<rparr>"
    by (simp add: assistantMsg_def res len)
  have g': "getConversation self' conversationId = Some (heap self' r)"
    by (simp add: getConversation_def s' r)
  have m': "heap self' r = context\<lparr>messages := messages context @ [?u, ?a]
              @ map ?t (enumerate 0 (fst (executeToolCalls rt pm toolCalls w)))
              @ [\<lparr>role = Assistant, content = sr_response result,
                  timestamp = Some (now (2 + length toolCalls)), msg_metadata = JUndefined\<rparr>]\<rparr>"
    unfolding s' f heap_push_message m3 by (simp add: e)
  have first: "getConversation self' conversationId
           = Some (context\<lparr>messages := messages context @ [?u, ?a]
                @ map ?t (enumerate 0 (fst (executeToolCalls rt pm toolCalls w)))
                @ [\<lparr>role = Assistant, content = sr_response result,
                    timestamp = Some (now (2 + length toolCalls)),
                    msg_metadata = JUndefined\<rparr>]\<rparr>)"
    using g' m' by simp
  have world: "w' = snd (executeToolCalls rt pm toolCalls w)"
    using w' e by simp
  show ?thesis
    using first world toolCallIds_executeToolCalls [of rt pm toolCalls w]
      executeToolCalls_Nil [of rt pm v] executeToolCalls_Cons [of rt pm tc tcs v]
      tool_call_response_unfolded [of rt pm tc v]
    by blast
qed


lemma executeToolCalls_example:
  "executeToolCalls rt0 clock_registry [n1_call, c2_call, n2_call] [] =
     ([\<lparr>toolCallId = ''n1'', tr_content = ''<json>'', tr_error = None\<rparr>,
       \<lparr>toolCallId = ''c2'', tr_content = ''<json>'',
        tr_error = Some ''Tool not found: missing_tool''\<rparr>,
       \<lparr>toolCallId = ''n2'', tr_content = ''<json>'', tr_error = None\<rparr>],
      [(''note'', JNum 1), (''note'', JNum 2)])"
  by (simp add: executeToolCalls_def tool_call_response_def executeTool_def Let_def
      clock_registry_def registerPlugin_def new_PluginManager_def clock_plugin_def
      notes_plugin_def take_note_def get_time_def n1_call_def c2_call_def n2_call_def rt0_def
      errorMessage_def)

lemma sendMessage_tool_example:
  "fst (sendMessage rt0 clock_registry tool_openai (\<lambda>k. 10 + k) ''a'' ''two notes'' JUndefined
          two_conversations []) = Inr midnight"
  by (simp add: sendMessage_def two_conversations_def createConversation_def
      new_AIAssistant_def Let_def tool_openai_def first_request_def followup_request_def
      push_message_def midnight_def or_empty_def split: prod.splits)

theorem sendMessage_tool_calls_in_order_witness:
  "getConversation two_conversations ''a'' = Some context_a
   \<and> tool_openai (first_request (config two_conversations)
         (context_a\<lparr>messages := messages context_a
            @ [\<lparr>role = User, content = ''two notes'', timestamp = Some 10,
                msg_metadata = JUndefined\<rparr>]\<rparr>))
       = Inr \<lparr>choices = [asks_three_tools]\<rparr>
   \<and> tool_calls asks_three_tools = Some [n1_call, c2_call, n2_call]
   \<and> fst (sendMessage rt0 clock_registry tool_openai (\<lambda>k. 10 + k) ''a'' ''two notes''
            JUndefined two_conversations []) = Inr midnight
   \<and> getConversation
         (fst (snd (sendMessage rt0 clock_registry tool_openai (\<lambda>k. 10 + k) ''a''
                      ''two notes'' JUndefined two_conversations []))) ''a''
       = Some (context_a\<lparr>messages := messages context_a
            @ [\<lparr>role = User, content = ''two notes'', timestamp = Some 10,
                msg_metadata = JUndefined\<rparr>,
               \<lparr>role = Assistant, content = [], timestamp = Some 11,
                msg_metadata = JUndefined\<rparr>,
               \<lparr>role = ToolRole, content = ''<json>'', timestamp = Some 12,
                msg_metadata = JObj [(''toolCallId'', JStr ''n1''), (''error'', JUndefined)]\<rparr>,
               \<lparr>role = ToolRole, content = ''<json>'', timestamp = Some 13,
                msg_metadata = JObj [(''toolCallId'', JStr ''c2''),
                                     (''error'', JStr ''Tool not found: missing_tool'')]\<rparr>,
               \<lparr>role = ToolRole, content = ''<json>'', timestamp = Some 14,
                msg_metadata = JObj [(''toolCallId'', JStr ''n2''), (''error'', JUndefined)]\<rparr>,
               \<lparr>role = Assistant, content = ''It is midnight.'', timestamp = Some 15,
                msg_metadata = JUndefined\<rparr>]\<rparr>)
   \<and> snd (snd (sendMessage rt0 clock_registry tool_openai (\<lambda>k. 10 + k) ''a'' ''two notes''
                  JUndefined two_conversations []))
       = [(''note'', JNum 1), (''note'', JNum 2)]"
proof -
  let ?run = "sendMessage rt0 clock_registry tool_openai (\<lambda>k. 10 + k) ''a'' ''two notes''
                JUndefined two_conversations []"
  have h2: "tool_openai (first_request (config two_conversations)
         (context_a\<lparr>messages := messages context_a
            @ [\<lparr>role = User, content = ''two notes'', timestamp = Some 10,
                msg_metadata = JUndefined\<rparr>]\<rparr>))
       = Inr \<lparr>choices = [asks_three_tools]\<rparr>"
    by (simp add: tool_openai_def first_request_def asks_three_tools_def)
  have h2': "tool_openai (first_request (config two_conversations)
         (context_a\<lparr>messages := messages context_a
            @ [\<lparr>role = User, content = ''two notes'', timestamp = Some (10 + 0),
                msg_metadata = JUndefined\<rparr>]\<rparr>))
       = Inr \<lparr>choices = [asks_three_tools]\<rparr>"
    using h2 by simp
  have h3: "choices \<lparr>choices = [asks_three_tools]\<rparr> = asks_three_tools # []" by simp
  have h4: "tool_calls asks_three_tools = Some [n1_call, c2_call, n2_call]"
    by (simp add: asks_three_tools_def)
  have h5: "[n1_call, c2_call, n2_call] \<noteq> []" by simp
  have h6: "?run = (Inr midnight, fst (snd ?run), snd (snd ?run))"
    using sendMessage_tool_example by (simp add: prod_eq_iff)
  have c: "cm_content asks_three_tools = None" by (simp add: asks_three_tools_def)
  have m: "sr_response midnight = ''It is midnight.''" by (simp add: midnight_def)
  have "getConversation (fst (snd ?run)) ''a''
           = Some (context_a\<lparr>messages := messages context_a
                @ [\<lparr>role = User, content = ''two notes'', timestamp = Some (10 + 0),
                    msg_metadata = JUndefined\<rparr>,
                   \<lparr>role = Assistant,
                    content = (case cm_content asks_three_tools of
                                 None \<Rightarrow> [] | Some reply \<Rightarrow> reply),
                    timestamp = Some (10 + 1), msg_metadata = JUndefined\<rparr>]
                @ map (\<lambda>p. \<lparr>role = ToolRole, content = tr_content (snd p),
                             timestamp = Some (10 + (2 + fst p)),
                             msg_metadata =
                               JObj [(''toolCallId'', JStr (toolCallId (snd p))),
                                     (''error'', (case tr_error (snd p) of
                                                    None \<Rightarrow> JUndefined
                                                  | Some e \<Rightarrow> JStr e))]\<rparr>)
                    (enumerate 0 (fst (executeToolCalls rt0 clock_registry
                                         [n1_call, c2_call, n2_call] [])))
                @ [\<lparr>role = Assistant, content = sr_response midnight,
                    timestamp = Some (10 + (2 + length [n1_call, c2_call, n2_call])),
                    msg_metadata = JUndefined\<rparr>]\<rparr>)
         \<and> snd (snd ?run) = snd (executeToolCalls rt0 clock_registry
                                   [n1_call, c2_call, n2_call] [])"
    using sendMessage_tool_calls_in_order [where openai = tool_openai
          and now = "\<lambda>k. 10 + k", OF getConversation_a h2' h3 h4 h5 h6]
    by blast
  then show ?thesis
    using getConversation_a h2 h4 sendMessage_tool_example
    by (simp add: executeToolCalls_example c m)
qed

text \<open>The loop run alone is the loop run in the worlds its own turns leave.\<close>

lemma executeToolCalls_in_Cons:
  "executeToolCalls_in rt pm (tc # tcs) worlds =
     fst (tool_call_response rt pm tc (worlds 0))
       # executeToolCalls_in rt pm tcs (\<lambda>i. worlds (Suc i))"
proof -
  have "enumerate 0 (tc # tcs) = (0, tc) # map (apfst Suc) (enumerate 0 tcs)"
    by (simp add: enumerate_Suc_eq)
  then show ?thesis
    by (simp add: executeToolCalls_in_def comp_def del: enumerate_simps)
qed

lemma executeToolCalls_in_sequential:
  "executeToolCalls_in rt pm toolCalls
     (\<lambda>i. snd (executeToolCalls rt pm (take i toolCalls) w))
   = fst (executeToolCalls rt pm toolCalls w)"
proof (induction toolCalls arbitrary: w)
  case Nil
  then show ?case by (simp add: executeToolCalls_in_def executeToolCalls_Nil)
next
  case (Cons tc tcs)
  show ?case
    by (simp add: executeToolCalls_in_Cons executeToolCalls_Cons executeToolCalls_Nil
        Cons.IH)
qed


section \<open>Isolation of conversations\<close>

lemma heap_push_tool_messages:
  "heap (push_tool_messages r rs now self) q =
     (if q = r
      then (heap self r)\<lparr>messages := messages (heap self r)
              @ map (\<lambda>p. toolMsg (snd p) (now (fst p))) (enumerate 0 rs)\<rparr>
      else heap self q)"
  by (simp add: push_tool_messages_eq)

lemma distinct_refs_same_id:
  "distinct (map snd al) \<Longrightarrow> map_of al a = Some r \<Longrightarrow> map_of al b = Some r \<Longrightarrow> a = b"
proof (induction al)
  case Nil
  then show ?case by simp
next
  case (Cons p al)
  obtain k v where p: "p = (k, v)" by (cases p)
  have notin: "\<And>c. map_of al c = Some v \<Longrightarrow> False"
  proof -
    fix c assume "map_of al c = Some v"
    then have "(c, v) \<in> set al" by (rule map_of_SomeD)
    then have "v \<in> snd ` set al" by force
    then show False using Cons.prems(1) p by simp
  qed
  show ?case
  proof (cases "a = k")
    case True
    then have rv: "r = v" using Cons.prems(2) p by simp
    show ?thesis
    proof (cases "b = k")
      case True
      then show ?thesis using \<open>a = k\<close> by simp
    next
      case False
      then have "map_of al b = Some v" using Cons.prems(3) p rv by simp
      then show ?thesis using notin by blast
    qed
  next
    case False
    then have ma: "map_of al a = Some r" using Cons.prems(2) p by simp
    show ?thesis
    proof (cases "b = k")
      case True
      then have "r = v" using Cons.prems(3) p by simp
      then show ?thesis using ma notin by blast
    next
      case False
      then have "map_of al b = Some r" using Cons.prems(3) p by simp
      then show ?thesis using Cons.IH ma Cons.prems(1) by simp
    qed
  qed
qed

lemma conversations_step [simp]:
  "conversations (assistant (step rt pm ev sys)) = conversations (assistant sys)"
  by (cases ev)
    (auto simp: Let_def split: option.splits task.splits sum.splits list.splits)

lemma pending_step_other:
  "l \<noteq> label_of ev \<Longrightarrow> pending (step rt pm ev sys) l = pending sys l"
  by (cases ev)
    (auto simp: Let_def split: option.splits task.splits sum.splits list.splits)

lemma wf_held:
  "wf sys \<Longrightarrow> pending sys l = Some t \<Longrightarrow> task_ref t = Some r \<Longrightarrow>
   map_of (conversations (assistant sys)) (fst l) = Some r"
  unfolding wf_def by blast

text \<open>A step writes to one context at most: the one its call holds.\<close>

lemma heap_step_other:
  assumes "wf sys"
    and "map_of (conversations (assistant sys)) (conversation_of ev) \<noteq> Some q"
  shows "heap (assistant (step rt pm ev sys)) q = heap (assistant sys) q"
proof (cases ev)
  case (Call l body md now)
  then show ?thesis
    using assms(2)
    by (auto simp: conversation_of_def heap_push_message split: option.splits)
next
  case (Reply l outcome now)
  have held: "\<And>t r. pending sys l = Some t \<Longrightarrow> task_ref t = Some r \<Longrightarrow> r \<noteq> q"
    using wf_held [OF assms(1)] assms(2) Reply by (fastforce simp: conversation_of_def)
  show ?thesis
  proof (cases "pending sys l")
    case None
    then show ?thesis using Reply by simp
  next
    case (Some t)
    then show ?thesis
      using Reply held [OF Some]
      by (cases t)
        (auto simp: Let_def heap_push_message split: sum.splits list.splits option.splits)
  qed
next
  case (ToolsDone l worlds now)
  have held: "\<And>t r. pending sys l = Some t \<Longrightarrow> task_ref t = Some r \<Longrightarrow> r \<noteq> q"
    using wf_held [OF assms(1)] assms(2) ToolsDone by (fastforce simp: conversation_of_def)
  show ?thesis
  proof (cases "pending sys l")
    case None
    then show ?thesis using ToolsDone by simp
  next
    case (Some t)
    then show ?thesis
      using ToolsDone held [OF Some]
      by (cases t) (auto simp: heap_push_tool_messages)
  qed
qed

lemma wf_step: "wf sys \<Longrightarrow> wf (step rt pm ev sys)"
  unfolding wf_def
  by (cases ev)
    (auto simp: Let_def split: option.splits task.splits sum.splits list.splits if_splits)


lemma agree_on_refl: "wf sys \<Longrightarrow> agree_on b sys sys"
  by (simp add: agree_on_def)

lemma agree_on_getConversation:
  "agree_on b s t \<Longrightarrow> getConversation (assistant s) b = getConversation (assistant t) b"
  by (cases "map_of (conversations (assistant t)) b") (auto simp: agree_on_def getConversation_def)

text \<open>An event addressed elsewhere, run on one side only, keeps the agreement.\<close>

lemma agree_on_step_left:
  assumes "agree_on b s t" and "conversation_of ev \<noteq> b"
  shows "agree_on b (step rt pm ev s) t"
proof -
  have wf: "wf s" "wf t" and c: "conversations (assistant s) = conversations (assistant t)"
    and h: "\<And>r. map_of (conversations (assistant s)) b = Some r \<Longrightarrow>
                 heap (assistant s) r = heap (assistant t) r"
    and p: "\<And>n. pending s (b, n) = pending t (b, n)"
    using assms(1) by (auto simp: agree_on_def)
  have h': "\<And>r. map_of (conversations (assistant s)) b = Some r \<Longrightarrow>
                 heap (assistant (step rt pm ev s)) r = heap (assistant t) r"
  proof -
    fix r assume r: "map_of (conversations (assistant s)) b = Some r"
    have "map_of (conversations (assistant s)) (conversation_of ev) \<noteq> Some r"
      using distinct_refs_same_id [of "conversations (assistant s)" "conversation_of ev" r b]
        r wf(1) assms(2) by (auto simp: wf_def)
    then have "heap (assistant (step rt pm ev s)) r = heap (assistant s) r"
      using wf(1) by (rule heap_step_other [rotated])
    then show "heap (assistant (step rt pm ev s)) r = heap (assistant t) r"
      using h [OF r] by simp
  qed
  have p': "\<And>n. pending (step rt pm ev s) (b, n) = pending t (b, n)"
  proof -
    fix n
    have "(b, n) \<noteq> label_of ev"
      using assms(2) by (cases "label_of ev") (auto simp: conversation_of_def)
    then show "pending (step rt pm ev s) (b, n) = pending t (b, n)"
      using p by (simp add: pending_step_other)
  qed
  show ?thesis
    unfolding agree_on_def using wf_step [OF wf(1)] wf(2) c h' p' by simp
qed

lemma agree_on_sym: "agree_on b s t \<Longrightarrow> agree_on b t s"
  unfolding agree_on_def by auto

text \<open>An event addressed to the conversation, run on both sides, keeps the agreement.\<close>

lemma agree_on_step_same:
  assumes "agree_on b s t" and "conversation_of ev = b"
  shows "agree_on b (step rt pm ev s) (step rt pm ev t)"
proof -
  obtain n where l: "label_of ev = (b, n)"
    using assms(2) by (cases "label_of ev") (auto simp: conversation_of_def)
  have wf: "wf s" "wf t" and c: "conversations (assistant s) = conversations (assistant t)"
    and h: "\<And>r. map_of (conversations (assistant t)) b = Some r \<Longrightarrow>
                 heap (assistant s) r = heap (assistant t) r"
    and p: "\<And>n. pending s (b, n) = pending t (b, n)"
    using assms(1) by (auto simp: agree_on_def)
  have held_s: "\<And>tk r. pending t (b, n) = Some tk \<Longrightarrow> task_ref tk = Some r \<Longrightarrow>
                  map_of (conversations (assistant t)) b = Some r"
    using wf_held [OF wf(2), of "(b, n)"] by simp
  have p': "\<And>m. pending (step rt pm ev s) (b, m) = pending (step rt pm ev t) (b, m)"
  proof -
    fix m
    show "pending (step rt pm ev s) (b, m) = pending (step rt pm ev t) (b, m)"
    proof (cases "(b, m) = label_of ev")
      case False
      then show ?thesis using p by (simp add: pending_step_other)
    next
      case True
      then show ?thesis
        using l p [of n] c
        by (cases ev)
          (auto simp: Let_def split: option.splits task.splits sum.splits list.splits)
    qed
  qed
  have h': "\<And>r. map_of (conversations (assistant t)) b = Some r \<Longrightarrow>
                 heap (assistant (step rt pm ev s)) r = heap (assistant (step rt pm ev t)) r"
  proof -
    fix r assume r: "map_of (conversations (assistant t)) b = Some r"
    note hr = h [OF r]
    show "heap (assistant (step rt pm ev s)) r = heap (assistant (step rt pm ev t)) r"
    proof (cases ev)
      case (Call l' body md now)
      then show ?thesis
        using l r c hr by (simp add: heap_push_message)
    next
      case (Reply l' outcome now)
      then have l': "l' = (b, n)" using l by simp
      show ?thesis
      proof (cases "pending t (b, n)")
        case None
        then show ?thesis using Reply l' p [of n] hr by simp
      next
        case (Some tk)
        have same: "\<And>q. task_ref tk = Some q \<Longrightarrow> q = r"
          using held_s [OF Some] r by simp
        show ?thesis
          using Reply l' p [of n] Some hr same
          by (cases tk)
            (auto simp: Let_def heap_push_message split: sum.splits list.splits option.splits)
      qed
    next
      case (ToolsDone l' worlds now)
      then have l': "l' = (b, n)" using l by simp
      show ?thesis
      proof (cases "pending t (b, n)")
        case None
        then show ?thesis using ToolsDone l' p [of n] hr by simp
      next
        case (Some tk)
        have same: "\<And>q. task_ref tk = Some q \<Longrightarrow> q = r"
          using held_s [OF Some] r by simp
        show ?thesis
          using ToolsDone l' p [of n] Some hr same
          by (cases tk) (auto simp: heap_push_tool_messages)
      qed
    qed
  qed
  show ?thesis
    unfolding agree_on_def
    using wf_step [OF wf(1)] wf_step [OF wf(2)] c h' p' by simp
qed

lemma agree_on_step_both:
  assumes "agree_on b s t"
  shows "agree_on b (step rt pm ev s) (step rt pm ev t)"
proof (cases "conversation_of ev = b")
  case True
  then show ?thesis using assms by (simp add: agree_on_step_same)
next
  case False
  have "agree_on b (step rt pm ev s) t"
    using assms False by (rule agree_on_step_left)
  then have "agree_on b t (step rt pm ev s)" by (rule agree_on_sym)
  then have "agree_on b (step rt pm ev t) (step rt pm ev s)"
    using False by (rule agree_on_step_left)
  then show ?thesis by (rule agree_on_sym)
qed

lemma agree_on_run_filter:
  assumes "\<And>ev. conversation_of ev = b \<Longrightarrow> P ev"
  shows "agree_on b s t \<Longrightarrow> agree_on b (run rt pm evs s) (run rt pm (filter P evs) t)"
proof (induction evs arbitrary: s t)
  case Nil
  then show ?case by (simp add: run_def)
next
  case (Cons ev evs)
  show ?case
  proof (cases "P ev")
    case True
    have "agree_on b (step rt pm ev s) (step rt pm ev t)"
      using Cons.prems by (rule agree_on_step_both)
    then have "agree_on b (run rt pm evs (step rt pm ev s))
                 (run rt pm (filter P evs) (step rt pm ev t))"
      by (rule Cons.IH)
    then show ?thesis using True by (simp add: run_def)
  next
    case False
    then have "conversation_of ev \<noteq> b" using assms by blast
    with Cons.prems have "agree_on b (step rt pm ev s) t" by (rule agree_on_step_left)
    then have "agree_on b (run rt pm evs (step rt pm ev s)) (run rt pm (filter P evs) t)"
      by (rule Cons.IH)
    then show ?thesis using False by (simp add: run_def)
  qed
qed


lemma getConversation_step_other:
  assumes "wf sys" and "conversation_of ev \<noteq> b"
  shows "getConversation (assistant (step rt pm ev sys)) b = getConversation (assistant sys) b"
proof -
  have "agree_on b sys sys" using assms(1) by (rule agree_on_refl)
  then have "agree_on b (step rt pm ev sys) sys" using assms(2) by (rule agree_on_step_left)
  then show ?thesis by (rule agree_on_getConversation)
qed

lemma append_no_messages: "ctx\<lparr>messages := messages ctx @ []\<rparr> = (ctx :: ConversationContext)"
  by simp

lemma getConversation_step_own:
  assumes "wf sys"
  shows "\<exists>msgs. getConversation (assistant (step rt pm ev sys)) (conversation_of ev)
           = map_option (\<lambda>ctx. ctx\<lparr>messages := messages ctx @ msgs\<rparr>)
               (getConversation (assistant sys) (conversation_of ev))"
proof (cases "map_of (conversations (assistant sys)) (conversation_of ev)")
  case None
  then have "getConversation (assistant (step rt pm ev sys)) (conversation_of ev) = None"
    and "getConversation (assistant sys) (conversation_of ev) = None"
    by (simp_all add: getConversation_def)
  then show ?thesis by simp
next
  case (Some r)
  have "\<exists>msgs. heap (assistant (step rt pm ev sys)) r
          = (heap (assistant sys) r)\<lparr>messages := messages (heap (assistant sys) r) @ msgs\<rparr>"
  proof (cases ev)
    case (Call l body md now)
    then show ?thesis
      using Some by (auto simp: conversation_of_def heap_push_message)
  next
    case (Reply l outcome now)
    show ?thesis
    proof (cases "pending sys l")
      case None
      then show ?thesis
        using Reply append_no_messages [of "heap (assistant sys) r"] by (auto intro: exI [of _ "[]"])
    next
      case (Some tk)
      have same: "\<And>q. task_ref tk = Some q \<Longrightarrow> q = r"
        using wf_held [OF assms Some] \<open>map_of (conversations (assistant sys)) (conversation_of ev) = Some r\<close>
          Reply by (simp add: conversation_of_def)
      show ?thesis
      proof (cases tk)
        case (AwaitReply q)
        then have q: "q = r" using same by simp
        show ?thesis
        proof (cases outcome)
          case (Inl err)
          then show ?thesis
            using Reply Some AwaitReply by (auto intro: exI [of _ "[]"])
        next
          case (Inr response)
          show ?thesis
          proof (cases "choices response")
            case Nil
            then show ?thesis
              using Reply Some AwaitReply Inr by (auto intro: exI [of _ "[]"])
          next
            case (Cons am others)
            then show ?thesis
              using Reply Some AwaitReply Inr q
              by (auto simp: Let_def heap_push_message split: option.splits list.splits)
          qed
        qed
      next
        case (AwaitTools q tcs)
        then show ?thesis
          using Reply Some by (auto intro: exI [of _ "[]"])
      next
        case (AwaitFollowUp q)
        then have q: "q = r" using same by simp
        show ?thesis
        proof (cases outcome)
          case (Inl err)
          then show ?thesis
            using Reply Some AwaitFollowUp by (auto intro: exI [of _ "[]"])
        next
          case (Inr response)
          show ?thesis
          proof (cases "choices response")
            case Nil
            then show ?thesis
              using Reply Some AwaitFollowUp Inr by (auto intro: exI [of _ "[]"])
          next
            case (Cons fm others)
            then show ?thesis
              using Reply Some AwaitFollowUp Inr q
              by (auto simp: heap_push_message)
          qed
        qed
      next
        case (Settled res)
        then show ?thesis
          using Reply Some by (auto intro: exI [of _ "[]"])
      qed
    qed
  next
    case (ToolsDone l worlds now)
    show ?thesis
    proof (cases "pending sys l")
      case None
      then show ?thesis
        using ToolsDone by (auto intro: exI [of _ "[]"])
    next
      case (Some tk)
      have same: "\<And>q. task_ref tk = Some q \<Longrightarrow> q = r"
        using wf_held [OF assms Some] \<open>map_of (conversations (assistant sys)) (conversation_of ev) = Some r\<close>
          ToolsDone by (simp add: conversation_of_def)
      show ?thesis
      proof (cases tk)
        case (AwaitTools q tcs)
        then have "q = r" using same by simp
        then show ?thesis
          using ToolsDone Some AwaitTools by (auto simp: heap_push_tool_messages)
      qed (use ToolsDone Some in \<open>auto intro: exI [of _ "[]"]\<close>)
    qed
  qed
  then show ?thesis
    using Some by (auto simp: getConversation_def)
qed

lemma sendMessage_unknown:
  "map_of (conversations self) conversationId = None \<Longrightarrow>
   sendMessage rt pm openai now conversationId body md self w
     = (Inl (Error (''Conversation not found: '' @ conversationId)), self, w)"
  by (simp add: sendMessage_def)

lemma sendMessage_as_steps_aux:
  assumes e1: "s1 = step rt pm (Call (conversationId, n) body md (now 0)) sys"
    and e2: "s2 = (case map_of (conversations (assistant sys)) conversationId of
                None \<Rightarrow> s1
              | Some r \<Rightarrow>
                  step rt pm (Reply (conversationId, n)
                     (openai (first_request (config (assistant s1)) (heap (assistant s1) r)))
                     (now 1)) s1)"
    and et: "toolCalls = (case pending s2 (conversationId, n) of
                            Some (AwaitTools r cs) \<Rightarrow> cs | _ \<Rightarrow> [])"
    and e3: "s3 = step rt pm (ToolsDone (conversationId, n)
                     (\<lambda>i. snd (executeToolCalls rt pm (take i toolCalls) w))
                     (\<lambda>i. now (2 + i))) s2"
    and e4: "s4 = (case map_of (conversations (assistant sys)) conversationId of
                None \<Rightarrow> s3
              | Some r \<Rightarrow>
                  step rt pm (Reply (conversationId, n)
                     (openai (followup_request (config (assistant s3)) (heap (assistant s3) r)))
                     (now (2 + length toolCalls))) s3)"
  shows "assistant s4
           = fst (snd (sendMessage rt pm openai now conversationId body md (assistant sys) w))
       \<and> pending s4 (conversationId, n)
           = Some (Settled (fst (sendMessage rt pm openai now conversationId body md
                                   (assistant sys) w)))
       \<and> snd (snd (sendMessage rt pm openai now conversationId body md (assistant sys) w))
           = snd (executeToolCalls rt pm toolCalls w)"
proof (cases "map_of (conversations (assistant sys)) conversationId")
  case None
  have 1: "s1 = sys\<lparr>pending := (pending sys)((conversationId, n) \<mapsto>
                   Settled (Inl (Error (''Conversation not found: '' @ conversationId))))\<rparr>"
    using e1 None by simp
  have 2: "s2 = s1" using e2 None by simp
  have t: "toolCalls = []" unfolding et 2 by (simp add: 1)
  have 3: "s3 = s1" unfolding e3 2 by (simp add: 1)
  have 4: "s4 = s1" using e4 None 3 by simp
  show ?thesis
    unfolding 4 t by (simp add: 1 sendMessage_unknown [OF None] executeToolCalls_Nil)
next
  case (Some r)
  let ?l = "(conversationId, n)"
  let ?a1 = "push_message r (userMessage body md (now 0)) (assistant sys)"
  let ?o1 = "openai (first_request (config (assistant sys)) (heap ?a1 r))"
  have s1: "s1 = sys\<lparr>assistant := ?a1, pending := (pending sys)(?l \<mapsto> AwaitReply r)\<rparr>"
    using e1 Some by simp
  have s2: "s2 = step rt pm (Reply ?l ?o1 (now 1)) s1"
    using e2 Some by (simp add: s1)
  have s4: "s4 = step rt pm (Reply ?l
                     (openai (followup_request (config (assistant s3)) (heap (assistant s3) r)))
                     (now (2 + length toolCalls))) s3"
    using e4 Some by simp
  have sm: "sendMessage rt pm openai now conversationId body md (assistant sys) w =
     (case ?o1 of
        Inl err \<Rightarrow> (Inl err, ?a1, w)
      | Inr response \<Rightarrow>
          (case choices response of
             [] \<Rightarrow> (Inl no_choice, ?a1, w)
           | assistantMessage # _ \<Rightarrow>
               (case tool_calls assistantMessage of
                  Some (tc # tcs) \<Rightarrow>
                    (case executeToolCalls rt pm (tc # tcs) w of
                       (toolResponses, w') \<Rightarrow>
                         (case openai (followup_request
                                 (config (push_tool_messages r toolResponses (\<lambda>i. now (2 + i))
                                            (push_message r (assistantMsg assistantMessage (now 1))
                                               ?a1)))
                                 (heap (push_tool_messages r toolResponses (\<lambda>i. now (2 + i))
                                          (push_message r (assistantMsg assistantMessage (now 1))
                                             ?a1)) r)) of
                            Inl err \<Rightarrow>
                              (Inl err,
                               push_tool_messages r toolResponses (\<lambda>i. now (2 + i))
                                 (push_message r (assistantMsg assistantMessage (now 1)) ?a1),
                               w')
                          | Inr followUpResponse \<Rightarrow>
                              (case choices followUpResponse of
                                 [] \<Rightarrow>
                                   (Inl no_choice,
                                    push_tool_messages r toolResponses (\<lambda>i. now (2 + i))
                                      (push_message r (assistantMsg assistantMessage (now 1))
                                         ?a1),
                                    w')
                               | followUpMessage # _ \<Rightarrow>
                                   (Inr \<lparr>sr_response = or_empty (cm_content followUpMessage),
                                         sr_toolCalls = None\<rparr>,
                                    push_message r
                                      (assistantMsg followUpMessage
                                         (now (2 + length toolResponses)))
                                      (push_tool_messages r toolResponses (\<lambda>i. now (2 + i))
                                         (push_message r
                                            (assistantMsg assistantMessage (now 1)) ?a1)),
                                    w'))))
                | _ \<Rightarrow>
                    (Inr \<lparr>sr_response = or_empty (cm_content assistantMessage),
                          sr_toolCalls = tool_calls assistantMessage\<rparr>,
                     push_message r (assistantMsg assistantMessage (now 1)) ?a1, w))))"
    unfolding sendMessage_def Let_def Some by simp
  show ?thesis
  proof (cases ?o1)
    case (Inl err)
    have 2: "s2 = s1\<lparr>pending := (pending s1)(?l \<mapsto> Settled (Inl err))\<rparr>"
      unfolding s2 Inl by (simp add: s1)
    have t: "toolCalls = []" unfolding et by (simp add: 2)
    have 3: "s3 = s2" unfolding e3 by (simp add: 2)
    have 4: "s4 = s2" unfolding s4 3 by (simp add: 2)
    show ?thesis unfolding 4 sm Inl t by (simp add: 2 s1 executeToolCalls_Nil)
  next
    case (Inr response)
    show ?thesis
    proof (cases "choices response")
      case Nil
      have 2: "s2 = s1\<lparr>pending := (pending s1)(?l \<mapsto> Settled (Inl no_choice))\<rparr>"
        unfolding s2 Inr by (simp add: s1 Nil)
      have t: "toolCalls = []" unfolding et by (simp add: 2)
      have 3: "s3 = s2" unfolding e3 by (simp add: 2)
      have 4: "s4 = s2" unfolding s4 3 by (simp add: 2)
      show ?thesis unfolding 4 sm Inr t by (simp add: 2 s1 Nil executeToolCalls_Nil)
    next
      case (Cons am others)
      let ?a2 = "push_message r (assistantMsg am (now 1)) ?a1"
      show ?thesis
      proof (cases "\<exists>c cs. tool_calls am = Some (c # cs)")
        case False
        have none: "tool_calls am = None \<or> tool_calls am = Some []"
        proof (cases "tool_calls am")
          case None
          then show ?thesis by simp
        next
          case (Some a)
          then show ?thesis using False by (cases a) auto
        qed
        have 2: "s2 = s1\<lparr>assistant := ?a2,
                         pending := (pending s1)(?l \<mapsto> Settled (Inr
                            \<lparr>sr_response = or_empty (cm_content am),
                             sr_toolCalls = tool_calls am\<rparr>))\<rparr>"
          unfolding s2 Inr using none by (auto simp: s1 Cons Let_def)
        have t: "toolCalls = []" unfolding et by (simp add: 2)
        have 3: "s3 = s2" unfolding e3 by (simp add: 2)
        have 4: "s4 = s2" unfolding s4 3 by (simp add: 2)
        show ?thesis
          unfolding 4 sm Inr t using none by (auto simp: 2 s1 Cons executeToolCalls_Nil)
      next
        case True
        then obtain c cs where tc: "tool_calls am = Some (c # cs)" by blast
        obtain rs w1 where ex: "executeToolCalls rt pm (c # cs) w = (rs, w1)"
          by (cases "executeToolCalls rt pm (c # cs) w")
        let ?a3 = "push_tool_messages r rs (\<lambda>i. now (2 + i)) ?a2"
        let ?o2 = "openai (followup_request (config (assistant sys)) (heap ?a3 r))"
        have 2: "s2 = s1\<lparr>assistant := ?a2,
                         pending := (pending s1)(?l \<mapsto> AwaitTools r (c # cs))\<rparr>"
          unfolding s2 Inr by (simp add: s1 Cons Let_def tc)
        have t: "toolCalls = c # cs" unfolding et by (simp add: 2)
        have seq: "executeToolCalls_in rt pm (c # cs)
                     (\<lambda>i. snd (executeToolCalls rt pm (take i (c # cs)) w)) = rs"
          using executeToolCalls_in_sequential [of rt pm "c # cs" w] ex by simp
        have len: "length toolCalls = length rs"
          using length_executeToolCalls [of rt pm "c # cs" w] ex t by simp
        have 3: "s3 = s2\<lparr>assistant := ?a3, pending := (pending s2)(?l \<mapsto> AwaitFollowUp r)\<rparr>"
          unfolding e3 t by (simp add: 2 seq del: take_Suc_Cons)
        have 4: "s4 = step rt pm (Reply ?l ?o2 (now (2 + length rs))) s3"
          unfolding s4 len by (simp add: 3)
        have sm': "sendMessage rt pm openai now conversationId body md (assistant sys) w =
           (case ?o2 of
              Inl err \<Rightarrow> (Inl err, ?a3, w1)
            | Inr followUpResponse \<Rightarrow>
                (case choices followUpResponse of
                   [] \<Rightarrow> (Inl no_choice, ?a3, w1)
                 | followUpMessage # _ \<Rightarrow>
                     (Inr \<lparr>sr_response = or_empty (cm_content followUpMessage),
                           sr_toolCalls = None\<rparr>,
                      push_message r (assistantMsg followUpMessage (now (2 + length rs))) ?a3,
                      w1)))"
          unfolding sm Inr by (simp add: Cons tc ex)
        have w: "snd (executeToolCalls rt pm toolCalls w) = w1"
          unfolding t by (simp add: ex)
        show ?thesis
        proof (cases ?o2)
          case o2: (Inl err)
          have "s4 = s3\<lparr>pending := (pending s3)(?l \<mapsto> Settled (Inl err))\<rparr>"
            unfolding 4 o2 by (simp add: 3)
          then show ?thesis
            unfolding sm' w o2 by (simp add: 3)
        next
          case o2: (Inr followUp)
          show ?thesis
          proof (cases "choices followUp")
            case Nil
            have "s4 = s3\<lparr>pending := (pending s3)(?l \<mapsto> Settled (Inl no_choice))\<rparr>"
              unfolding 4 o2 by (simp add: 3 Nil)
            then show ?thesis
              unfolding sm' w o2 by (simp add: 3 Nil)
          next
            case fm: (Cons fm rest)
            have "s4 = s3\<lparr>assistant := push_message r
                                          (assistantMsg fm (now (2 + length rs))) ?a3,
                            pending := (pending s3)(?l \<mapsto> Settled (Inr
                               \<lparr>sr_response = or_empty (cm_content fm), sr_toolCalls = None\<rparr>))\<rparr>"
              unfolding 4 o2 by (simp add: 3 fm)
            then show ?thesis
              unfolding sm' w o2 by (simp add: 3 fm)
          qed
        qed
      qed
    qed
  qed
qed

text \<open>
  The steps are \<open>sendMessage\<close> cut at its \<open>await\<close>s: run one after the other for
  one call, with the provider's answers to the two requests, the tools run in the worlds
  the turns of the loop leave one another, and the successive readings of the clock, they
  leave the state and the result \<open>sendMessage\<close> gives.
\<close>

lemma sendMessage_as_steps:
  "(let l = (conversationId, n);
        s1 = step rt pm (Call l body md (now 0)) sys;
        s2 = (case map_of (conversations (assistant sys)) conversationId of
                None \<Rightarrow> s1
              | Some r \<Rightarrow>
                  step rt pm (Reply l (openai (first_request (config (assistant s1))
                                                (heap (assistant s1) r))) (now 1)) s1);
        toolCalls = (case pending s2 l of Some (AwaitTools r cs) \<Rightarrow> cs | _ \<Rightarrow> []);
        s3 = step rt pm (ToolsDone l (\<lambda>i. snd (executeToolCalls rt pm (take i toolCalls) w))
                           (\<lambda>i. now (2 + i))) s2;
        s4 = (case map_of (conversations (assistant sys)) conversationId of
                None \<Rightarrow> s3
              | Some r \<Rightarrow>
                  step rt pm (Reply l (openai (followup_request (config (assistant s3))
                                                (heap (assistant s3) r)))
                                (now (2 + length toolCalls))) s3)
    in assistant s4
         = fst (snd (sendMessage rt pm openai now conversationId body md (assistant sys) w))
       \<and> pending s4 l
           = Some (Settled (fst (sendMessage rt pm openai now conversationId body md
                                   (assistant sys) w)))
       \<and> snd (snd (sendMessage rt pm openai now conversationId body md (assistant sys) w))
           = snd (executeToolCalls rt pm toolCalls w))"
  unfolding Let_def by (rule sendMessage_as_steps_aux [OF refl refl refl refl refl])

lemma wf_run: "wf sys \<Longrightarrow> wf (run rt pm evs sys)"
  unfolding run_def by (induction evs arbitrary: sys) (simp_all add: wf_step)

text \<open>The states the assistant reaches never share a context between two ids.\<close>

lemma refs_ok_new: "refs_ok (new_AIAssistant cfg)"
  by (simp add: refs_ok_def new_AIAssistant_def)

lemma set_update_values: "snd ` set (AList.update k v al) \<subseteq> insert v (snd ` set al)"
  by (induction al) auto

lemma distinct_update_values:
  "distinct (map snd al) \<Longrightarrow> v \<notin> snd ` set al \<Longrightarrow> distinct (map snd (AList.update k v al))"
proof (induction al)
  case Nil
  then show ?case by simp
next
  case (Cons p al)
  have "snd p \<notin> snd ` set (AList.update k v al)"
    using set_update_values [of k v al] Cons.prems by auto
  then show ?case using Cons by auto
qed

lemma refs_ok_createConversation:
  assumes "refs_ok a"
  shows "refs_ok (snd (createConversation pm generated prompt now conversationId a))"
proof -
  have fresh: "next_ref a \<notin> snd ` set (conversations a)"
    using assms by (auto simp: refs_ok_def)
  have d: "\<And>k. distinct (map snd (AList.update k (next_ref a) (conversations a)))"
    using assms fresh by (simp add: refs_ok_def distinct_update_values)
  have b: "\<And>k r. r \<in> snd ` set (AList.update k (next_ref a) (conversations a)) \<Longrightarrow>
                 r < Suc (next_ref a)"
  proof -
    fix k r assume "r \<in> snd ` set (AList.update k (next_ref a) (conversations a))"
    then have "r = next_ref a \<or> r \<in> snd ` set (conversations a)"
      using set_update_values [of k "next_ref a" "conversations a"] by auto
    then show "r < Suc (next_ref a)"
      using assms by (auto simp: refs_ok_def less_Suc_eq)
  qed
  show ?thesis
    unfolding refs_ok_def createConversation_def Let_def using d b by simp
qed

lemma refs_ok_deleteConversation:
  "refs_ok a \<Longrightarrow> refs_ok (snd (deleteConversation conversationId a))"
  by (auto simp: refs_ok_def deleteConversation_def AList.delete_eq distinct_map_filter)

lemma refs_ok_clearAllConversations: "refs_ok (clearAllConversations a)"
  by (simp add: refs_ok_def clearAllConversations_def)

lemma wf_idle: "refs_ok a \<Longrightarrow> wf (idle a)"
  by (simp add: wf_def idle_def refs_ok_def)

lemma refs_ok_two_conversations: "refs_ok two_conversations"
  unfolding two_conversations_def
  by (intro refs_ok_createConversation refs_ok_new)

lemma filter_interleaved:
  "filter (\<lambda>ev. conversation_of ev \<noteq> ''a'') interleaved =
     [Call (''b'', 0) ''what time is it'' JUndefined 4,
      Reply (''b'', 0) (Inr \<lparr>choices = [asks_two_tools]\<rparr>) 5,
      ToolsDone (''b'', 0) (\<lambda>i. []) (\<lambda>i. 7 + i),
      Reply (''b'', 0) (Inr \<lparr>choices = [echo_hello]\<rparr>) 10]"
  by (simp add: interleaved_def conversation_of_def)

text \<open>
  C9. Take any state in which no two conversation ids share a context and every
  suspended call holds the context of the id it was addressed to (\<open>wf\<close>; the states
  reached from a new assistant are such), any two distinct ids \<open>a\<close> and \<open>b\<close>, and
  any schedule of calls and resumptions of \<open>sendMessage\<close>, with any answers from the
  provider. The context of \<open>b\<close> at the end, its messages included, is what it is when
  every step of the sends addressed to \<open>a\<close> is left out of the schedule. Step by
  step: a step of a send addressed to \<open>a\<close> leaves the context of \<open>b\<close> as it is and
  changes the context of \<open>a\<close> only by appending messages to it.
\<close>

theorem conversation_isolation:
  assumes "wf sys" and "a \<noteq> b"
  shows "getConversation (assistant (run rt pm evs sys)) b
           = getConversation
               (assistant (run rt pm (filter (\<lambda>ev. conversation_of ev \<noteq> a) evs) sys)) b
         \<and> wf (run rt pm evs sys)
         \<and> (conversation_of ev = a \<longrightarrow>
               getConversation (assistant (step rt pm ev sys)) b
                 = getConversation (assistant sys) b
               \<and> (\<exists>msgs. getConversation (assistant (step rt pm ev sys)) a
                     = map_option (\<lambda>ctx. ctx\<lparr>messages := messages ctx @ msgs\<rparr>)
                         (getConversation (assistant sys) a)))"
proof -
  have "agree_on b sys sys" using assms(1) by (rule agree_on_refl)
  then have "agree_on b (run rt pm evs sys)
               (run rt pm (filter (\<lambda>ev. conversation_of ev \<noteq> a) evs) sys)"
    using assms(2) by (intro agree_on_run_filter) auto
  then have whole: "getConversation (assistant (run rt pm evs sys)) b
           = getConversation
               (assistant (run rt pm (filter (\<lambda>ev. conversation_of ev \<noteq> a) evs) sys)) b"
    by (rule agree_on_getConversation)
  have one: "conversation_of ev = a \<Longrightarrow>
               getConversation (assistant (step rt pm ev sys)) b
                 = getConversation (assistant sys) b"
    using assms by (simp add: getConversation_step_other)
  have own: "conversation_of ev = a \<Longrightarrow>
               \<exists>msgs. getConversation (assistant (step rt pm ev sys)) a
                     = map_option (\<lambda>ctx. ctx\<lparr>messages := messages ctx @ msgs\<rparr>)
                         (getConversation (assistant sys) a)"
    using getConversation_step_own [OF assms(1), of rt pm ev] by simp
  show ?thesis
    using whole wf_run [OF assms(1)] one own by blast
qed

theorem conversation_isolation_witness:
  "wf (idle two_conversations) \<and> ''a'' \<noteq> ''b''
   \<and> getConversation (assistant (run rt0 clock_registry interleaved (idle two_conversations))) ''b''
       = getConversation
           (assistant (run rt0 clock_registry
              (filter (\<lambda>ev. conversation_of ev \<noteq> ''a'') interleaved) (idle two_conversations)))
           ''b''
   \<and> getConversation
         (assistant (step rt0 clock_registry (Call (''a'', 0) ''hi'' JUndefined 3)
                       (idle two_conversations))) ''b''
       = getConversation (assistant (idle two_conversations)) ''b''"
proof -
  have h1: "wf (idle two_conversations)"
    using refs_ok_two_conversations by (rule wf_idle)
  have h2: "''a'' \<noteq> ''b''" by simp
  have c: "conversation_of (Call (''a'', 0) ''hi'' JUndefined 3) = ''a''"
    by (simp add: conversation_of_def)
  show ?thesis
    using h1 h2 c
      conversation_isolation [OF h1 h2, of rt0 clock_registry interleaved
        "Call (''a'', 0) ''hi'' JUndefined 3"]
    by blast
qed

end
